theory Spec2Isabelle
  imports Main "HOL-Library.AList"
begin

section \<open>Strings\<close>

text \<open>
  JavaScript strings are modelled as \<open>string\<close> restricted to ASCII: \<open>toUpperCase\<close> and
  \<open>toLowerCase\<close> change the letters a-z / A-Z and leave every other character alone.
\<close>

definition upperChar :: "char \<Rightarrow> char" where
  "upperChar c =
     (case map_of (zip ''abcdefghijklmnopqrstuvwxyz'' ''ABCDEFGHIJKLMNOPQRSTUVWXYZ'') c of
        None \<Rightarrow> c | Some u \<Rightarrow> u)"

definition lowerChar :: "char \<Rightarrow> char" where
  "lowerChar c =
     (case map_of (zip ''ABCDEFGHIJKLMNOPQRSTUVWXYZ'' ''abcdefghijklmnopqrstuvwxyz'') c of
        None \<Rightarrow> c | Some l \<Rightarrow> l)"

definition toUpperCase :: "string \<Rightarrow> string" where
  "toUpperCase s = map upperChar s"

definition toLowerCase :: "string \<Rightarrow> string" where
  "toLowerCase s = map lowerChar s"

text \<open>\<open>s.startsWith(p)\<close>.\<close>

definition startsWith :: "string \<Rightarrow> string \<Rightarrow> bool" where
  "startsWith s p = (take (length p) s = p)"

text \<open>\<open>s.slice(0, n)\<close> and \<open>s.slice(-n)\<close> (the last \<open>n\<close> characters, the whole string when it
  is shorter).\<close>

definition slice_first :: "nat \<Rightarrow> string \<Rightarrow> string" where
  "slice_first n s = take n s"

definition slice_last :: "nat \<Rightarrow> string \<Rightarrow> string" where
  "slice_last n s = drop (length s - n) s"

text \<open>\<open>s.padStart(n, c)\<close>.\<close>

definition padStart :: "nat \<Rightarrow> char \<Rightarrow> string \<Rightarrow> string" where
  "padStart n c s = replicate (n - length s) c @ s"

section \<open>Errors\<close>

text \<open>
  Every throw of the source is \<open>new Error(message)\<close>. The model keeps the message and tags
  it with the class the specification gives to the throw site.
\<close>

datatype error_class =
    InvalidAddress
  | UnknownToken
  | RemoteFetchFailed
  | NoProviderConfigured
  | TransportError
  | OnChainError
  | ValidationError

datatype error = Error (error_class: error_class) (message: string)

section \<open>Address normalizer\<close>

text \<open>
  Modelled from the spec: \<open>validateAndParseAddress\<close> belongs to the starknet library and is
  not part of the sources. The specification (4.1) asks for: validation of a hexadecimal
  address string, short or padded, in either case; failure with \<open>InvalidAddress\<close> when the
  input is not valid hexadecimal or exceeds the field; a fixed-width result of \<open>0x\<close> and 64
  hexadecimal digits. The model reads the digits as a number, as the library does, prints
  the number in base 16 and pads it to 64 digits. The address field is bounded by
  \<open>ADDR_BOUND\<close>.
\<close>

definition hexValue :: "char \<Rightarrow> nat option" where
  "hexValue c =
     map_of
       [(CHR ''0'', 0),
        (CHR ''1'', 1),
        (CHR ''2'', 2),
        (CHR ''3'', 3),
        (CHR ''4'', 4),
        (CHR ''5'', 5),
        (CHR ''6'', 6),
        (CHR ''7'', 7),
        (CHR ''8'', 8),
        (CHR ''9'', 9),
        (CHR ''a'', 10),
        (CHR ''b'', 11),
        (CHR ''c'', 12),
        (CHR ''d'', 13),
        (CHR ''e'', 14),
        (CHR ''f'', 15),
        (CHR ''A'', 10),
        (CHR ''B'', 11),
        (CHR ''C'', 12),
        (CHR ''D'', 13),
        (CHR ''E'', 14),
        (CHR ''F'', 15)] c"

definition hexChar :: "nat \<Rightarrow> char" where
  "hexChar d = ''0123456789abcdef'' ! d"

fun parse_digits :: "nat \<Rightarrow> string \<Rightarrow> nat option" where
  "parse_digits acc [] = Some acc"
| "parse_digits acc (c # cs) =
     (case hexValue c of None \<Rightarrow> None | Some d \<Rightarrow> parse_digits (acc * 16 + d) cs)"

definition parse_hex :: "string \<Rightarrow> nat option" where
  "parse_hex s = (if s = [] then None else parse_digits 0 s)"

fun to_hex :: "nat \<Rightarrow> string" where
  "to_hex n = (if n < 16 then [hexChar n] else to_hex (n div 16) @ [hexChar (n mod 16)])"

declare to_hex.simps [simp del]

definition removeHexPrefix :: "string \<Rightarrow> string" where
  "removeHexPrefix s = (if toLowerCase (take 2 s) = ''0x'' then drop 2 s else s)"

definition ADDR_BOUND :: nat where
  "ADDR_BOUND = 2 ^ 251 - 256"

definition addAddressPadding :: "nat \<Rightarrow> string" where
  "addAddressPadding n = ''0x'' @ padStart 64 CHR ''0'' (to_hex n)"

definition validateAndParseAddress :: "string \<Rightarrow> error + string" where
  "validateAndParseAddress a =
     (case parse_hex (removeHexPrefix a) of
        None \<Rightarrow> Inl (Error InvalidAddress ''Invalid Address Format'')
      | Some n \<Rightarrow>
          if 64 < length (to_hex n) then Inl (Error InvalidAddress ''Invalid Address Format'')
          else if ADDR_BOUND \<le> n then Inl (Error InvalidAddress ''Invalid Address Format'')
          else Inr (addAddressPadding n))"

text \<open>\<open>normalizeAddress\<close> of utils.ts: \<open>validateAndParseAddress(address).toLowerCase()\<close>.\<close>

definition normalizeAddress :: "string \<Rightarrow> error + string" where
  "normalizeAddress a =
     (case validateAndParseAddress a of Inl e \<Rightarrow> Inl e | Inr r \<Rightarrow> Inr (toLowerCase r))"

section \<open>Token records\<close>

text \<open>The \<open>Token\<close> of the metadata source and the \<open>CachedToken\<close> of the service. The display
  fields are opaque to the resolution logic; the volume is kept as an integer.\<close>

record Token =
  address :: string
  symbol :: string
  name :: string
  decimals :: nat
  logoUri :: "string option"
  lastDailyVolumeUsd :: int
  tags :: "string list"
  extensions :: "(string \<times> string) list"

record CachedToken = Token +
  isStatic :: bool
  lastUpdated :: int

text \<open>Modelled from the spec: \<open>TOKEN_TTL_MS\<close> is declared in types/token, which is not part of
  the sources; the specification fixes it at 24 hours.\<close>

definition TOKEN_TTL_MS :: int where
  "TOKEN_TTL_MS = 24 * 60 * 60 * 1000"

definition STATIC_TOKENS :: "CachedToken list" where
  "STATIC_TOKENS =
     [\<lparr>address = ''0x049d36570d4e46f48e99674bd3fcc84644ddd6b96f7c741b1562b82f9e004dc7'',
       symbol = ''ETH'', name = ''Ether'', decimals = 18,
       logoUri = None, lastDailyVolumeUsd = 0, tags = [''Verified''], extensions = [],
       isStatic = True, lastUpdated = 0\<rparr>,
      \<lparr>address = ''0x04718f5a0fc34cc1af16a1cdee98ffb20c31f5cd61d6ab07201858f4287c938d'',
       symbol = ''STRK'', name = ''Starknet Token'', decimals = 18,
       logoUri = None, lastDailyVolumeUsd = 0, tags = [''Verified''], extensions = [],
       isStatic = True, lastUpdated = 0\<rparr>,
      \<lparr>address = ''0x053c91253bc9682c04929ca02ed00b3e423f6710d2ee7e0d5ebb06f3ecf368a8'',
       symbol = ''USDC'', name = ''USD Coin'', decimals = 6,
       logoUri = None, lastDailyVolumeUsd = 0, tags = [''Verified''], extensions = [],
       isStatic = True, lastUpdated = 0\<rparr>,
      \<lparr>address = ''0x068f5c6a61780768455de69077e07e89787839bf8166decfbf92b645209c0fb8'',
       symbol = ''USDT'', name = ''Tether USD'', decimals = 6,
       logoUri = None, lastDailyVolumeUsd = 0, tags = [''Verified''], extensions = [],
       isStatic = True, lastUpdated = 0\<rparr>]"

text \<open>\<open>isExpired\<close>, with the reading of \<open>Date.now()\<close> as a parameter.\<close>

definition isExpired :: "int \<Rightarrow> CachedToken \<Rightarrow> bool" where
  "isExpired now token =
     (if isStatic token then False else now - lastUpdated token > TOKEN_TTL_MS)"

definition toCachedToken :: "Token \<Rightarrow> bool \<Rightarrow> int \<Rightarrow> error + CachedToken" where
  "toCachedToken token isStatic' now =
     (case normalizeAddress (address token) of
        Inl e \<Rightarrow> Inl e
      | Inr a \<Rightarrow>
          Inr \<lparr>address = a, symbol = symbol token, name = name token,
               decimals = decimals token, logoUri = logoUri token,
               lastDailyVolumeUsd = lastDailyVolumeUsd token, tags = tags token,
               extensions = extensions token,
               isStatic = isStatic', lastUpdated = now\<rparr>)"

section \<open>The token service\<close>

text \<open>
  The two \<open>Map\<close>s of the class are association lists: \<open>get\<close> is \<open>map_of\<close>, \<open>set\<close> is
  \<open>AList.update\<close> (an existing key keeps its place, a new key goes to the end, as in a
  JavaScript \<open>Map\<close>), \<open>delete\<close> is \<open>AList.delete\<close>, \<open>size\<close> is \<open>length\<close>.
\<close>

datatype RpcProvider = RpcProvider string

record TokenService =
  cache :: "(string \<times> CachedToken) list"
  symbolIndex :: "(string \<times> string) list"
  baseUrl :: string
  provider :: "RpcProvider option"

text \<open>The outside world of one call: the clock, the two calls of the metadata source and
  the \<open>decimals\<close> call on a contract through a provider. A rejected promise is \<open>Inl\<close>.\<close>

record env =
  date_now :: int
  fetchTokenByAddress :: "string \<Rightarrow> string \<Rightarrow> error + Token"
  fetchVerifiedTokenBySymbol :: "string \<Rightarrow> string \<Rightarrow> error + Token"
  contract_decimals :: "RpcProvider \<Rightarrow> string \<Rightarrow> error + nat"

text \<open>The calls that leave the process, in the order they are made.\<close>

datatype event =
    FetchTokenByAddress string
  | FetchVerifiedTokenBySymbol string
  | ContractDecimals string

type_synonym 'a outcome = "(error + 'a) \<times> TokenService \<times> event list"

text \<open>Truthiness of \<open>string | undefined\<close>.\<close>

definition truthy :: "string option \<Rightarrow> bool" where
  "truthy v = (case v of None \<Rightarrow> False | Some s \<Rightarrow> s \<noteq> [])"

definition setProvider :: "RpcProvider \<Rightarrow> TokenService \<Rightarrow> TokenService" where
  "setProvider p st = st\<lparr>provider := Some p\<rparr>"

fun loadStaticTokens :: "CachedToken list \<Rightarrow> TokenService \<Rightarrow> error + TokenService" where
  "loadStaticTokens [] st = Inr st"
| "loadStaticTokens (token # rest) st =
     (case normalizeAddress (address token) of
        Inl e \<Rightarrow> Inl e
      | Inr normalized \<Rightarrow>
          loadStaticTokens rest
            (st\<lparr>cache := AList.update normalized (token\<lparr>address := normalized\<rparr>) (cache st),
                symbolIndex :=
                  AList.update (toUpperCase (symbol token)) normalized (symbolIndex st)\<rparr>))"

text \<open>The constructor.\<close>

definition new_TokenService :: "string \<Rightarrow> error + TokenService" where
  "new_TokenService url =
     loadStaticTokens STATIC_TOKENS
       \<lparr>cache = [], symbolIndex = [], baseUrl = url, provider = None\<rparr>"

definition addToCache ::
  "TokenService \<Rightarrow> Token \<Rightarrow> bool \<Rightarrow> int \<Rightarrow> error + (CachedToken \<times> TokenService)" where
  "addToCache st token isStatic' now =
     (case normalizeAddress (address token) of
        Inl e \<Rightarrow> Inl e
      | Inr normalized \<Rightarrow>
          let existing = map_of (cache st) normalized in
          if (case existing of None \<Rightarrow> False | Some x \<Rightarrow> isStatic x)
          then Inr (the existing, st)
          else
            (case toCachedToken token isStatic' now of
               Inl e \<Rightarrow> Inl e
             | Inr cached0 \<Rightarrow>
                 let cached = cached0\<lparr>address := normalized\<rparr>;
                     cache' = AList.update normalized cached (cache st);
                     upperSymbol = toUpperCase (symbol token);
                     existingAddr = map_of (symbolIndex st) upperSymbol;
                     index' =
                       (if \<not> truthy existingAddr \<or>
                           \<not> (case map_of cache' (the existingAddr) of
                                None \<Rightarrow> False | Some x \<Rightarrow> isStatic x)
                        then AList.update upperSymbol normalized (symbolIndex st)
                        else symbolIndex st)
                 in Inr (cached, st\<lparr>cache := cache', symbolIndex := index'\<rparr>)))"

subsection \<open>Synchronous methods\<close>

definition resolveSymbol :: "TokenService \<Rightarrow> string \<Rightarrow> error + string" where
  "resolveSymbol st symbolOrAddress =
     (let upper = toUpperCase symbolOrAddress;
          indexed = map_of (symbolIndex st) upper
      in if truthy indexed then Inr (the indexed)
         else if startsWith symbolOrAddress ''0x'' then normalizeAddress symbolOrAddress
         else Inl (Error UnknownToken (''Unknown token: '' @ symbolOrAddress)))"

text \<open>\<open>undefined\<close> is \<open>None\<close>.\<close>

definition getDecimals :: "TokenService \<Rightarrow> int \<Rightarrow> string \<Rightarrow> error + nat option" where
  "getDecimals st now a =
     (case normalizeAddress a of
        Inl e \<Rightarrow> Inl e
      | Inr normalized \<Rightarrow>
          (case map_of (cache st) normalized of
             None \<Rightarrow> Inr None
           | Some cached \<Rightarrow> if isExpired now cached then Inr None else Inr (Some (decimals cached))))"


subsection \<open>Asynchronous methods\<close>

text \<open>
  An asynchronous method returns its result (a rejected promise is \<open>Inl\<close>), the service
  after the call and the outside calls it made. One call reads the clock once.
  \<open>error instanceof Error ? error.message : String(error)\<close> is \<open>message\<close>.
\<close>

definition getTokenByAddress :: "env \<Rightarrow> TokenService \<Rightarrow> string \<Rightarrow> CachedToken outcome" where
  "getTokenByAddress w st a =
     (case normalizeAddress a of
        Inl e \<Rightarrow> (Inl e, st, [])
      | Inr normalized \<Rightarrow>
          let cached = map_of (cache st) normalized in
          if (case cached of None \<Rightarrow> False | Some c \<Rightarrow> \<not> isExpired (date_now w) c)
          then (Inr (the cached), st, [])
          else
            \<comment> \<open>the \<open>try\<close> block, then the \<open>catch\<close>\<close>
            (case (case fetchTokenByAddress w a (baseUrl st) of
                     Inl e \<Rightarrow> Inl e
                   | Inr token \<Rightarrow> addToCache st token False (date_now w)) of
               Inl e \<Rightarrow>
                 (Inl (Error RemoteFetchFailed
                    (''Failed to fetch token by address '' @ a @ '': '' @ message e)),
                  st, [FetchTokenByAddress a])
             | Inr (c, st') \<Rightarrow> (Inr c, st', [FetchTokenByAddress a])))"

definition getTokenBySymbol :: "env \<Rightarrow> TokenService \<Rightarrow> string \<Rightarrow> CachedToken outcome" where
  "getTokenBySymbol w st symb =
     (let upper = toUpperCase symb;
          addr = map_of (symbolIndex st) upper;
          cached = (if truthy addr then map_of (cache st) (the addr) else None)
      in
        if (case cached of None \<Rightarrow> False | Some c \<Rightarrow> \<not> isExpired (date_now w) c)
        then (Inr (the cached), st, [])
        else
          (case (case fetchVerifiedTokenBySymbol w symb (baseUrl st) of
                   Inl e \<Rightarrow> Inl e
                 | Inr token \<Rightarrow> addToCache st token False (date_now w)) of
             Inl e \<Rightarrow>
               (Inl (Error RemoteFetchFailed
                  (''Failed to fetch token by symbol '' @ [CHR 0x22] @ symb @ [CHR 0x22] @ '': '' @
                   message e)),
                st, [FetchVerifiedTokenBySymbol symb])
           | Inr (c, st') \<Rightarrow> (Inr c, st', [FetchVerifiedTokenBySymbol symb])))"

definition resolveSymbolAsync :: "env \<Rightarrow> TokenService \<Rightarrow> string \<Rightarrow> string outcome" where
  "resolveSymbolAsync w st symbolOrAddress =
     (case resolveSymbol st symbolOrAddress of
        Inr a \<Rightarrow> (Inr a, st, [])
      | Inl _ \<Rightarrow>
          if \<not> startsWith symbolOrAddress ''0x'' then
            (case getTokenBySymbol w st symbolOrAddress of
               (Inl e, st', tr) \<Rightarrow> (Inl e, st', tr)
             | (Inr token, st', tr) \<Rightarrow> (Inr (address token), st', tr))
          else (Inl (Error UnknownToken (''Unknown token: '' @ symbolOrAddress)), st, []))"

definition cacheOnChainDecimals ::
  "TokenService \<Rightarrow> int \<Rightarrow> string \<Rightarrow> nat \<Rightarrow> error + TokenService" where
  "cacheOnChainDecimals st now a decimals' =
     (case normalizeAddress a of
        Inl e \<Rightarrow> Inl e
      | Inr normalized \<Rightarrow>
          if map_of (cache st) normalized \<noteq> None then Inr st
          else
            let shortAddr = slice_first 10 normalized @ ''...'' @ slice_last 6 normalized;
                cached = \<lparr>address = normalized, symbol = shortAddr, name = ''Unknown Token'',
                          decimals = decimals', logoUri = None, lastDailyVolumeUsd = 0,
                          tags = [], extensions = [], isStatic = False, lastUpdated = now\<rparr>
            in Inr (st\<lparr>cache := AList.update normalized cached (cache st)\<rparr>))"

text \<open>The provider's answer is taken as the number \<open>Number(result?.decimals ?? result)\<close>.\<close>

definition getDecimalsAsync :: "env \<Rightarrow> TokenService \<Rightarrow> string \<Rightarrow> nat outcome" where
  "getDecimalsAsync w st a =
     (case getDecimals st (date_now w) a of
        Inl e \<Rightarrow> (Inl e, st, [])
      | Inr (Some cached) \<Rightarrow> (Inr cached, st, [])
      | Inr None \<Rightarrow>
          (case getTokenByAddress w st a of
             (Inr token, st', tr) \<Rightarrow> (Inr (decimals token), st', tr)
           | (Inl _, st', tr) \<Rightarrow>
               (case provider st' of
                  None \<Rightarrow>
                    (Inl (Error NoProviderConfigured
                       (''Token '' @ a @
                        '' not found and no RPC provider configured for on-chain fallback'')),
                     st', tr)
                | Some p \<Rightarrow>
                    (case contract_decimals w p a of
                       Inl e \<Rightarrow> (Inl e, st', tr @ [ContractDecimals a])
                     | Inr d \<Rightarrow>
                         (case cacheOnChainDecimals st' (date_now w) a d of
                            Inl e \<Rightarrow> (Inl e, st', tr @ [ContractDecimals a])
                          | Inr st'' \<Rightarrow> (Inr d, st'', tr @ [ContractDecimals a]))))))"

definition getTokenInfoAsync :: "env \<Rightarrow> TokenService \<Rightarrow> string \<Rightarrow> CachedToken outcome" where
  "getTokenInfoAsync w st addressOrSymbol =
     (if startsWith addressOrSymbol ''0x'' then getTokenByAddress w st addressOrSymbol
      else getTokenBySymbol w st addressOrSymbol)"

subsection \<open>Cache management\<close>

text \<open>The two loops of \<open>clearDynamicCache\<close> run over the entries the map had when the loop
  began and delete from the map as they go.\<close>

fun clearCacheLoop ::
  "(string \<times> CachedToken) list \<Rightarrow> (string \<times> CachedToken) list \<Rightarrow> (string \<times> CachedToken) list" where
  "clearCacheLoop [] c = c"
| "clearCacheLoop ((addr, token) # rest) c =
     clearCacheLoop rest (if \<not> isStatic token then AList.delete addr c else c)"

fun clearIndexLoop ::
  "(string \<times> CachedToken) list \<Rightarrow> (string \<times> string) list \<Rightarrow> (string \<times> string) list \<Rightarrow>
   (string \<times> string) list" where
  "clearIndexLoop c [] ix = ix"
| "clearIndexLoop c ((symb, addr) # rest) ix =
     clearIndexLoop c rest (if map_of c addr = None then AList.delete symb ix else ix)"

definition clearDynamicCache :: "TokenService \<Rightarrow> TokenService" where
  "clearDynamicCache st =
     (let cache' = clearCacheLoop (cache st) (cache st);
          index' = clearIndexLoop cache' (symbolIndex st) (symbolIndex st)
      in st\<lparr>cache := cache', symbolIndex := index'\<rparr>)"

definition getAllCached :: "TokenService \<Rightarrow> CachedToken list" where
  "getAllCached st = map snd (cache st)"

definition getCacheSize :: "TokenService \<Rightarrow> nat" where
  "getCacheSize st = length (cache st)"

section \<open>Balance input (utils.ts)\<close>

definition MAX_BATCH_TOKENS :: nat where
  "MAX_BATCH_TOKENS = 200"

text \<open>\<open>resolveTokenAddress\<close> asks the shared service, which is passed here.\<close>

definition resolveTokenAddress :: "TokenService \<Rightarrow> string \<Rightarrow> error + string" where
  "resolveTokenAddress st token = resolveSymbol st token"

text \<open>\<open>tokens.map(resolveTokenAddress)\<close>: the first throw ends the map.\<close>

fun map_resolve :: "TokenService \<Rightarrow> string list \<Rightarrow> error + string list" where
  "map_resolve st [] = Inr []"
| "map_resolve st (t # ts) =
     (case resolveTokenAddress st t of
        Inl e \<Rightarrow> Inl e
      | Inr a \<Rightarrow> (case map_resolve st ts of Inl e \<Rightarrow> Inl e | Inr as \<Rightarrow> Inr (a # as)))"

text \<open>\<open>validateTokensInput\<close>; \<open>undefined\<close> is \<open>None\<close>, \<open>new Set(xs).size\<close> is the length of the
  list without its repetitions.\<close>

definition validateTokensInput :: "TokenService \<Rightarrow> string list option \<Rightarrow> error + string list" where
  "validateTokensInput st tokens =
     (case tokens of
        None \<Rightarrow> Inl (Error ValidationError ''At least one token is required'')
      | Some ts \<Rightarrow>
          if length ts = 0 then Inl (Error ValidationError ''At least one token is required'')
          else if length ts > MAX_BATCH_TOKENS
          then Inl (Error ValidationError ''Maximum 200 tokens per request'')
          else
            (case map_resolve st ts of
               Inl e \<Rightarrow> Inl e
             | Inr tokenAddresses \<Rightarrow>
                 if length (remdups tokenAddresses) \<noteq> length ts
                 then Inl (Error ValidationError ''Duplicate tokens in request'')
                 else Inr tokenAddresses))"

section \<open>Reachable states and the state invariant\<close>

text \<open>The cache and the symbol index right after construction.\<close>

definition static_cache :: "(string \<times> CachedToken) list" where
  "static_cache = map (\<lambda>t. (address t, t)) STATIC_TOKENS"

definition static_index :: "(string \<times> string) list" where
  "static_index = map (\<lambda>t. (toUpperCase (symbol t), address t)) STATIC_TOKENS"

text \<open>
  The states a service can be in: the state after construction, and the state after any
  public method, whatever the outside world answers and whatever the clock reads. The
  synchronous methods do not change the state.
\<close>

inductive reachable :: "TokenService \<Rightarrow> bool" where
  r_new: "new_TokenService url = Inr st \<Longrightarrow> reachable st"
| r_setProvider: "reachable st \<Longrightarrow> reachable (setProvider p st)"
| r_getTokenByAddress:
    "reachable st \<Longrightarrow> getTokenByAddress w st a = (r, st', tr) \<Longrightarrow> reachable st'"
| r_getTokenBySymbol:
    "reachable st \<Longrightarrow> getTokenBySymbol w st a = (r, st', tr) \<Longrightarrow> reachable st'"
| r_resolveSymbolAsync:
    "reachable st \<Longrightarrow> resolveSymbolAsync w st a = (r', st', tr) \<Longrightarrow> reachable st'"
| r_getDecimalsAsync:
    "reachable st \<Longrightarrow> getDecimalsAsync w st a = (r'', st', tr) \<Longrightarrow> reachable st'"
| r_getTokenInfoAsync:
    "reachable st \<Longrightarrow> getTokenInfoAsync w st a = (r, st', tr) \<Longrightarrow> reachable st'"
| r_clearDynamicCache: "reachable st \<Longrightarrow> reachable (clearDynamicCache st)"

text \<open>
  The invariant of the two maps: the static entries are those of the construction, in
  their order; keys are not repeated; every cache key is a fixed point of the normalizer
  and is the address of its record; every address in the symbol index is a fixed point of
  the normalizer; the static symbols point to their static addresses.
\<close>

definition inv :: "TokenService \<Rightarrow> bool" where
  "inv st \<longleftrightarrow>
     filter (\<lambda>(k, t). isStatic t) (cache st) = static_cache \<and>
     distinct (map fst (cache st)) \<and>
     distinct (map fst (symbolIndex st)) \<and>
     (\<forall>(k, t) \<in> set (cache st). normalizeAddress k = Inr k \<and> address t = k) \<and>
     (\<forall>(s, a) \<in> set (symbolIndex st). normalizeAddress a = Inr a) \<and>
     (\<forall>(s, a) \<in> set static_index. map_of (symbolIndex st) s = Some a)"

section \<open>Example inputs\<close>

text \<open>The service after \<open>new TokenService()\<close> with the default URL.\<close>

definition service0 :: TokenService where
  "service0 =
     \<lparr>cache = static_cache, symbolIndex = static_index,
      baseUrl = ''https://starknet.api.avnu.fi'', provider = None\<rparr>"

definition ETH :: CachedToken where
  "ETH = STATIC_TOKENS ! 0"

text \<open>The token of the test suite, and a record that claims the address and the symbol of
  ETH with other decimals.\<close>

definition MOCK_LORDS_TOKEN :: Token where
  "MOCK_LORDS_TOKEN =
     \<lparr>address = ''0x0124aeb495b947201f5fac96fd1138e326ad86195b98df6dec9009158a533b49'',
      symbol = ''LORDS'', name = ''Lords'', decimals = 18,
      logoUri = Some ''https://example.com/lords.png'', lastDailyVolumeUsd = 50000,
      tags = [''Verified''], extensions = []\<rparr>"

text \<open>The record cached for the test token when it is fetched at time 1000.\<close>

definition LORDS_cached :: CachedToken where
  "LORDS_cached =
     \<lparr>address = ''0x0124aeb495b947201f5fac96fd1138e326ad86195b98df6dec9009158a533b49'',
      symbol = ''LORDS'', name = ''Lords'', decimals = 18,
      logoUri = Some ''https://example.com/lords.png'', lastDailyVolumeUsd = 50000,
      tags = [''Verified''], extensions = [], isStatic = False, lastUpdated = 1000\<rparr>"

definition fakeETH :: Token where
  "fakeETH =
     MOCK_LORDS_TOKEN
       \<lparr>address := ''0x049d36570d4e46f48e99674bd3fcc84644ddd6b96f7c741b1562b82f9e004dc7'',
        symbol := ''ETH'', decimals := 8\<rparr>"

text \<open>A world whose metadata source answers with the test token, and a world whose
  metadata source is down while the chain answers 18.\<close>

definition world_lords :: env where
  "world_lords =
     \<lparr>date_now = 1000,
      fetchTokenByAddress = (\<lambda>a url. Inr MOCK_LORDS_TOKEN),
      fetchVerifiedTokenBySymbol = (\<lambda>s url. Inr MOCK_LORDS_TOKEN),
      contract_decimals = (\<lambda>p a. Inr 18)\<rparr>"

definition world_down :: env where
  "world_down =
     \<lparr>date_now = 1000,
      fetchTokenByAddress = (\<lambda>a url. Inl (Error TransportError ''avnu unavailable'')),
      fetchVerifiedTokenBySymbol = (\<lambda>s url. Inl (Error TransportError ''avnu unavailable'')),
      contract_decimals = (\<lambda>p a. Inr 18)\<rparr>"

text \<open>A world whose metadata source answers every request with a record whose address
  is not hexadecimal, while the chain answers 18.\<close>

definition world_badrecord :: env where
  "world_badrecord =
     \<lparr>date_now = 1000,
      fetchTokenByAddress = (\<lambda>a url. Inr (MOCK_LORDS_TOKEN\<lparr>address := ''0xZZ''\<rparr>)),
      fetchVerifiedTokenBySymbol = (\<lambda>s url. Inr (MOCK_LORDS_TOKEN\<lparr>address := ''0xZZ''\<rparr>)),
      contract_decimals = (\<lambda>p a. Inr 18)\<rparr>"

text \<open>The service with a provider, and the same service after the on-chain fallback has
  cached the decimals of an unknown address at time 1000.\<close>

definition service_rpc :: TokenService where
  "service_rpc = setProvider (RpcProvider ''http://localhost:5050'') service0"

definition UNKNOWN_cached :: CachedToken where
  "UNKNOWN_cached =
     \<lparr>address = ''0x0000000000000000000000000000000000000000000000000000000000001234'',
      symbol = ''0x00000000...001234'', name = ''Unknown Token'', decimals = 18,
      logoUri = None, lastDailyVolumeUsd = 0, tags = [], extensions = [],
      isStatic = False, lastUpdated = 1000\<rparr>"

definition service_onchain :: TokenService where
  "service_onchain =
     service_rpc
       \<lparr>cache := static_cache @
          [(''0x0000000000000000000000000000000000000000000000000000000000001234'',
            UNKNOWN_cached)]\<rparr>"

section \<open>Properties of the address normalizer\<close>

lemma lt16: "(d::nat) < 16 \<Longrightarrow> d \<in> set [0,1,2,3,4,5,6,7,8,9,10,11,12,13,14,15]"
  by (simp, arith)

lemma hexChar_table:
  "list_all (\<lambda>d. hexValue (hexChar d) = Some d \<and> lowerChar (hexChar d) = hexChar d)
     [0,1,2,3,4,5,6,7,8,9,10,11,12,13,14,15]"
  by (simp add: hexValue_def hexChar_def lowerChar_def)

lemma hexValue_hexChar: "d < 16 \<Longrightarrow> hexValue (hexChar d) = Some d"
  using hexChar_table lt16 [of d] unfolding list_all_iff by blast

lemma lowerChar_hexChar: "d < 16 \<Longrightarrow> lowerChar (hexChar d) = hexChar d"
  using hexChar_table lt16 [of d] unfolding list_all_iff by blast

lemma lowerChar_table:
  "list_all (\<lambda>c. hexValue (lowerChar c) = hexValue c \<and> lowerChar (lowerChar c) = lowerChar c)
     ''ABCDEFGHIJKLMNOPQRSTUVWXYZ''"
  by (simp add: hexValue_def lowerChar_def)

lemma lowerChar_other: "c \<notin> set ''ABCDEFGHIJKLMNOPQRSTUVWXYZ'' \<Longrightarrow> lowerChar c = c"
proof -
  assume "c \<notin> set ''ABCDEFGHIJKLMNOPQRSTUVWXYZ''"
  then have "map_of (zip ''ABCDEFGHIJKLMNOPQRSTUVWXYZ'' ''abcdefghijklmnopqrstuvwxyz'') c = None"
    by (subst map_of_zip_is_None) simp_all
  then show ?thesis by (simp add: lowerChar_def)
qed

lemma lowerChar_idem: "lowerChar (lowerChar c) = lowerChar c"
proof (cases "c \<in> set ''ABCDEFGHIJKLMNOPQRSTUVWXYZ''")
  case True
  with lowerChar_table show ?thesis unfolding list_all_iff by blast
next
  case False
  from lowerChar_other [OF this] show ?thesis by simp
qed

lemma hexValue_lowerChar: "hexValue (lowerChar c) = hexValue c"
proof (cases "c \<in> set ''ABCDEFGHIJKLMNOPQRSTUVWXYZ''")
  case True
  with lowerChar_table show ?thesis unfolding list_all_iff by blast
next
  case False
  from lowerChar_other [OF this] show ?thesis by simp
qed

lemma to_hex_nonempty: "to_hex n \<noteq> []"
  by (subst to_hex.simps) simp

lemma parse_digits_append:
  "parse_digits acc (xs @ ys) =
     (case parse_digits acc xs of None \<Rightarrow> None | Some a \<Rightarrow> parse_digits a ys)"
  by (induction xs arbitrary: acc) (auto split: option.splits)

lemma parse_digits_to_hex: "parse_digits acc (to_hex n) = Some (acc * 16 ^ length (to_hex n) + n)"
proof (induction n arbitrary: acc rule: to_hex.induct)
  case (1 n)
  show ?case
  proof (cases "n < 16")
    case True
    then show ?thesis
      by (subst (1 2) to_hex.simps) (simp add: hexValue_hexChar)
  next
    case False
    have m: "n mod 16 < 16" by simp
    from False 1 have ih: "\<And>acc. parse_digits acc (to_hex (n div 16)) =
        Some (acc * 16 ^ length (to_hex (n div 16)) + n div 16)" by simp
    have "parse_digits acc (to_hex n) =
        parse_digits acc (to_hex (n div 16) @ [hexChar (n mod 16)])"
      using False by (subst to_hex.simps) simp
    also have "\<dots> = Some ((acc * 16 ^ length (to_hex (n div 16)) + n div 16) * 16 + n mod 16)"
      by (simp add: parse_digits_append ih hexValue_hexChar [OF m])
    also have "length (to_hex n) = Suc (length (to_hex (n div 16)))"
      using False by (subst to_hex.simps) simp
    ultimately show ?thesis
      by (simp add: algebra_simps)
  qed
qed

lemma parse_digits_zeros: "parse_digits 0 (replicate k CHR ''0'' @ s) = parse_digits 0 s"
  by (induction k) (simp_all add: hexValue_def)

lemma toLowerCase_to_hex: "toLowerCase (to_hex n) = to_hex n"
proof (induction n rule: to_hex.induct)
  case (1 n)
  show ?case
  proof (cases "n < 16")
    case True
    then show ?thesis
      by (subst (1 2) to_hex.simps) (simp add: toLowerCase_def lowerChar_hexChar)
  next
    case False
    have m: "n mod 16 < 16" by simp
    from False 1 have ih: "toLowerCase (to_hex (n div 16)) = to_hex (n div 16)" by simp
    show ?thesis
      using False ih by (subst (1 2) to_hex.simps) (simp add: toLowerCase_def lowerChar_hexChar [OF m])
  qed
qed

lemma parse_digits_lower: "parse_digits acc (toLowerCase s) = parse_digits acc s"
  by (induction s arbitrary: acc) (simp_all add: toLowerCase_def hexValue_lowerChar split: option.splits)

lemma removeHexPrefix_lower:
  "removeHexPrefix (toLowerCase s) = toLowerCase (removeHexPrefix s)"
  by (simp add: removeHexPrefix_def toLowerCase_def take_map drop_map lowerChar_idem o_def)

lemma parse_hex_lower: "parse_hex (toLowerCase s) = parse_hex s"
  by (simp add: parse_hex_def parse_digits_lower) (simp add: toLowerCase_def)

lemma removeHexPrefix_0x: "removeHexPrefix (''0x'' @ s) = s"
  by (simp add: removeHexPrefix_def toLowerCase_def lowerChar_def)

lemma hexChar_in: "d < 16 \<Longrightarrow> hexChar d \<in> set ''0123456789abcdef''"
proof -
  have "list_all (\<lambda>d. hexChar d \<in> set ''0123456789abcdef'')
     [0,1,2,3,4,5,6,7,8,9,10,11,12,13,14,15]"
    by (simp add: hexChar_def)
  then show "d < 16 \<Longrightarrow> hexChar d \<in> set ''0123456789abcdef''"
    using lt16 [of d] unfolding list_all_iff by blast
qed

lemma set_to_hex: "set (to_hex n) \<subseteq> set ''0123456789abcdef''"
proof (induction n rule: to_hex.induct)
  case (1 n)
  show ?case
  proof (cases "n < 16")
    case True
    then show ?thesis
      using hexChar_in [of n] by (subst to_hex.simps) simp
  next
    case False
    have m: "n mod 16 < 16" by simp
    from False 1 have ih: "set (to_hex (n div 16)) \<subseteq> set ''0123456789abcdef''" by simp
    show ?thesis
      using False ih hexChar_in [OF m] by (subst to_hex.simps) simp
  qed
qed

lemma parse_hex_canonical:
  "parse_hex (replicate k CHR ''0'' @ to_hex n) = Some n"
  by (simp add: parse_hex_def to_hex_nonempty parse_digits_zeros parse_digits_to_hex)

lemma toLowerCase_canonical:
  "toLowerCase (addAddressPadding n) = addAddressPadding n"
proof -
  have "toLowerCase (replicate k CHR ''0'') = replicate k CHR ''0''" for k
    by (simp add: toLowerCase_def lowerChar_def)
  moreover have "toLowerCase ''0x'' = ''0x''"
    by (simp add: toLowerCase_def lowerChar_def)
  moreover have "toLowerCase (a @ b) = toLowerCase a @ toLowerCase b" for a b
    by (simp add: toLowerCase_def)
  ultimately show ?thesis
    by (simp only: addAddressPadding_def padStart_def toLowerCase_to_hex)
qed

lemma normalizeAddress_InrD:
  assumes "normalizeAddress a = Inr r"
  shows "\<exists>n. parse_hex (removeHexPrefix a) = Some n \<and> length (to_hex n) \<le> 64 \<and>
             n < ADDR_BOUND \<and> r = addAddressPadding n"
  using assms
  by (auto simp: normalizeAddress_def validateAndParseAddress_def toLowerCase_canonical
           split: option.splits if_splits sum.splits)

lemma normalizeAddress_parse:
  assumes "parse_hex (removeHexPrefix a) = Some n" "length (to_hex n) \<le> 64" "n < ADDR_BOUND"
  shows "normalizeAddress a = Inr (addAddressPadding n)"
  using assms
  by (simp add: normalizeAddress_def validateAndParseAddress_def toLowerCase_canonical)

lemma normalizeAddress_canonical:
  assumes "length (to_hex n) \<le> 64" "n < ADDR_BOUND"
  shows "normalizeAddress (addAddressPadding n) =
           Inr (addAddressPadding n)"
proof -
  have "parse_hex (removeHexPrefix (addAddressPadding n)) = Some n"
    by (simp only: addAddressPadding_def removeHexPrefix_0x padStart_def parse_hex_canonical)
  from normalizeAddress_parse [OF this assms] show ?thesis .
qed

lemma normalizeAddress_fixed: "normalizeAddress x = Inr y \<Longrightarrow> normalizeAddress y = Inr y"
  using normalizeAddress_InrD normalizeAddress_canonical by blast

lemma normalizeAddress_case:
  assumes "toLowerCase x' = toLowerCase x"
  shows "normalizeAddress x' = normalizeAddress x"
proof -
  have "parse_hex (removeHexPrefix x') = parse_hex (toLowerCase (removeHexPrefix x'))"
    by (simp only: parse_hex_lower)
  also have "\<dots> = parse_hex (toLowerCase (removeHexPrefix x))"
    using assms by (simp only: removeHexPrefix_lower [symmetric])
  also have "\<dots> = parse_hex (removeHexPrefix x)"
    by (simp only: parse_hex_lower)
  finally show ?thesis
    by (simp add: normalizeAddress_def validateAndParseAddress_def)
qed

lemma normalizeAddress_padded:
  assumes "normalizeAddress x = Inr y"
  shows "normalizeAddress (''0x'' @ replicate k CHR ''0'' @ removeHexPrefix x) = Inr y"
proof -
  from normalizeAddress_InrD [OF assms] obtain n where
    n: "parse_hex (removeHexPrefix x) = Some n" "length (to_hex n) \<le> 64" "n < ADDR_BOUND"
       "y = addAddressPadding n" by blast
  from n(1) have ne: "removeHexPrefix x \<noteq> []" and pd: "parse_digits 0 (removeHexPrefix x) = Some n"
    by (auto simp: parse_hex_def split: if_splits)
  have "parse_hex (removeHexPrefix (''0x'' @ replicate k CHR ''0'' @ removeHexPrefix x)) = Some n"
    using ne pd by (simp only: removeHexPrefix_0x) (simp add: parse_hex_def parse_digits_zeros)
  from normalizeAddress_parse [OF this n(2,3)] n(4) show ?thesis by simp
qed

lemma normalized_shape:
  assumes "normalizeAddress x = Inr y"
  shows "length y = 66" "startsWith y ''0x''" "toLowerCase y = y"
        "set (drop 2 y) \<subseteq> set ''0123456789abcdef''"
proof -
  from normalizeAddress_InrD [OF assms] obtain n where
    n: "length (to_hex n) \<le> 64" "y = addAddressPadding n" by blast
  show "length y = 66" using n by (simp add: addAddressPadding_def padStart_def)
  show "startsWith y ''0x''" using n by (simp add: addAddressPadding_def startsWith_def)
  show "toLowerCase y = y" using n by (simp only: toLowerCase_canonical)
  show "set (drop 2 y) \<subseteq> set ''0123456789abcdef''"
    using n set_to_hex [of n] by (auto simp: addAddressPadding_def padStart_def)
qed

lemma replicate_numeral: "replicate (numeral v) x = x # replicate (numeral v - 1) x"
  by (simp add: numeral_eq_Suc)

lemmas normalize_eval =
  normalizeAddress_def validateAndParseAddress_def addAddressPadding_def parse_hex_def
  removeHexPrefix_def toLowerCase_def lowerChar_def hexValue_def hexChar_def to_hex.simps
  ADDR_BOUND_def padStart_def replicate_numeral

text \<open>Evaluation of the normalizer on a literal, one step at a time.\<close>

lemma normalizeAddress_0x_eval:
  assumes "parse_digits 0 body = Some n" "body \<noteq> []" "to_hex n = h" "length h \<le> 64"
    "n < ADDR_BOUND"
  shows "normalizeAddress (''0x'' @ body) = Inr (''0x'' @ replicate (64 - length h) CHR ''0'' @ h)"
proof -
  have "parse_hex (removeHexPrefix (''0x'' @ body)) = Some n"
    using assms(1,2) by (simp only: removeHexPrefix_0x) (simp add: parse_hex_def)
  from normalizeAddress_parse [OF this] assms(3,4,5) show ?thesis
    by (simp add: addAddressPadding_def padStart_def)
qed

subsection \<open>The static registry and the constructor\<close>

lemma norm_ETH:
  "normalizeAddress ''0x049d36570d4e46f48e99674bd3fcc84644ddd6b96f7c741b1562b82f9e004dc7'' =
     Inr ''0x049d36570d4e46f48e99674bd3fcc84644ddd6b96f7c741b1562b82f9e004dc7''"
proof -
  have "normalizeAddress (''0x'' @ ''049d36570d4e46f48e99674bd3fcc84644ddd6b96f7c741b1562b82f9e004dc7'') =
     Inr (''0x'' @ replicate (64 - length ''49d36570d4e46f48e99674bd3fcc84644ddd6b96f7c741b1562b82f9e004dc7'') CHR ''0'' @
       ''49d36570d4e46f48e99674bd3fcc84644ddd6b96f7c741b1562b82f9e004dc7'')"
    by (rule normalizeAddress_0x_eval
          [where n = "0x049d36570d4e46f48e99674bd3fcc84644ddd6b96f7c741b1562b82f9e004dc7"])
       (simp_all add: hexValue_def to_hex.simps hexChar_def ADDR_BOUND_def)
  then show ?thesis by (simp add: replicate_numeral)
qed

lemma norm_STRK:
  "normalizeAddress ''0x04718f5a0fc34cc1af16a1cdee98ffb20c31f5cd61d6ab07201858f4287c938d'' =
     Inr ''0x04718f5a0fc34cc1af16a1cdee98ffb20c31f5cd61d6ab07201858f4287c938d''"
proof -
  have "normalizeAddress (''0x'' @ ''04718f5a0fc34cc1af16a1cdee98ffb20c31f5cd61d6ab07201858f4287c938d'') =
     Inr (''0x'' @ replicate (64 - length ''4718f5a0fc34cc1af16a1cdee98ffb20c31f5cd61d6ab07201858f4287c938d'') CHR ''0'' @
       ''4718f5a0fc34cc1af16a1cdee98ffb20c31f5cd61d6ab07201858f4287c938d'')"
    by (rule normalizeAddress_0x_eval
          [where n = "0x04718f5a0fc34cc1af16a1cdee98ffb20c31f5cd61d6ab07201858f4287c938d"])
       (simp_all add: hexValue_def to_hex.simps hexChar_def ADDR_BOUND_def)
  then show ?thesis by (simp add: replicate_numeral)
qed

lemma norm_USDC:
  "normalizeAddress ''0x053c91253bc9682c04929ca02ed00b3e423f6710d2ee7e0d5ebb06f3ecf368a8'' =
     Inr ''0x053c91253bc9682c04929ca02ed00b3e423f6710d2ee7e0d5ebb06f3ecf368a8''"
proof -
  have "normalizeAddress (''0x'' @ ''053c91253bc9682c04929ca02ed00b3e423f6710d2ee7e0d5ebb06f3ecf368a8'') =
     Inr (''0x'' @ replicate (64 - length ''53c91253bc9682c04929ca02ed00b3e423f6710d2ee7e0d5ebb06f3ecf368a8'') CHR ''0'' @
       ''53c91253bc9682c04929ca02ed00b3e423f6710d2ee7e0d5ebb06f3ecf368a8'')"
    by (rule normalizeAddress_0x_eval
          [where n = "0x053c91253bc9682c04929ca02ed00b3e423f6710d2ee7e0d5ebb06f3ecf368a8"])
       (simp_all add: hexValue_def to_hex.simps hexChar_def ADDR_BOUND_def)
  then show ?thesis by (simp add: replicate_numeral)
qed

lemma norm_USDT:
  "normalizeAddress ''0x068f5c6a61780768455de69077e07e89787839bf8166decfbf92b645209c0fb8'' =
     Inr ''0x068f5c6a61780768455de69077e07e89787839bf8166decfbf92b645209c0fb8''"
proof -
  have "normalizeAddress (''0x'' @ ''068f5c6a61780768455de69077e07e89787839bf8166decfbf92b645209c0fb8'') =
     Inr (''0x'' @ replicate (64 - length ''68f5c6a61780768455de69077e07e89787839bf8166decfbf92b645209c0fb8'') CHR ''0'' @
       ''68f5c6a61780768455de69077e07e89787839bf8166decfbf92b645209c0fb8'')"
    by (rule normalizeAddress_0x_eval
          [where n = "0x068f5c6a61780768455de69077e07e89787839bf8166decfbf92b645209c0fb8"])
       (simp_all add: hexValue_def to_hex.simps hexChar_def ADDR_BOUND_def)
  then show ?thesis by (simp add: replicate_numeral)
qed

lemmas norm_static = norm_ETH norm_STRK norm_USDC norm_USDT

lemma static_symbols:
  "toUpperCase ''ETH'' = ''ETH''" "toUpperCase ''STRK'' = ''STRK''"
  "toUpperCase ''USDC'' = ''USDC''" "toUpperCase ''USDT'' = ''USDT''"
  by (simp_all add: toUpperCase_def upperChar_def)

lemma new_TokenService_eq:
  "new_TokenService url =
     Inr \<lparr>cache = static_cache, symbolIndex = static_index, baseUrl = url, provider = None\<rparr>"
  by (simp add: new_TokenService_def STATIC_TOKENS_def static_cache_def static_index_def
        norm_static static_symbols)

subsection \<open>The state invariant\<close>

lemma filter_update_other:
  assumes "\<not> P (k, v)" "\<forall>v'. (k, v') \<in> set xs \<longrightarrow> \<not> P (k, v')"
  shows "filter P (AList.update k v xs) = filter P xs"
  using assms by (induction xs) auto

lemma set_update_subset: "set (AList.update k v xs) \<subseteq> insert (k, v) (set xs)"
  by (induction xs) auto

lemma static_cache_isStatic: "(k, t) \<in> set static_cache \<Longrightarrow> isStatic t"
  by (auto simp: static_cache_def STATIC_TOKENS_def)

lemma static_index_cache: "(s, a) \<in> set static_index \<Longrightarrow> \<exists>t. (a, t) \<in> set static_cache"
  by (auto simp: static_cache_def static_index_def)

lemma invI:
  assumes "filter (\<lambda>(k, t). isStatic t) (cache st) = static_cache"
    "distinct (map fst (cache st))" "distinct (map fst (symbolIndex st))"
    "\<And>k t. (k, t) \<in> set (cache st) \<Longrightarrow> normalizeAddress k = Inr k \<and> address t = k"
    "\<And>s a. (s, a) \<in> set (symbolIndex st) \<Longrightarrow> normalizeAddress a = Inr a"
    "\<And>s a. (s, a) \<in> set static_index \<Longrightarrow> map_of (symbolIndex st) s = Some a"
  shows "inv st"
  unfolding inv_def using assms by blast

lemma invD:
  assumes "inv st"
  shows "filter (\<lambda>(k, t). isStatic t) (cache st) = static_cache"
    "distinct (map fst (cache st))" "distinct (map fst (symbolIndex st))"
    "\<And>k t. (k, t) \<in> set (cache st) \<Longrightarrow> normalizeAddress k = Inr k \<and> address t = k"
    "\<And>s a. (s, a) \<in> set (symbolIndex st) \<Longrightarrow> normalizeAddress a = Inr a"
    "\<And>s a. (s, a) \<in> set static_index \<Longrightarrow> map_of (symbolIndex st) s = Some a"
  using assms unfolding inv_def by blast+

lemma inv_static_iff:
  assumes "inv st"
  shows "(map_of (cache st) k = Some t \<and> isStatic t) \<longleftrightarrow> (k, t) \<in> set static_cache"
proof -
  from assms have f: "filter (\<lambda>(k, t). isStatic t) (cache st) = static_cache"
    and d: "distinct (map fst (cache st))" by (simp_all add: inv_def)
  have "(k, t) \<in> set static_cache \<longleftrightarrow> (k, t) \<in> set (cache st) \<and> isStatic t"
    by (subst f [symmetric]) auto
  with d show ?thesis by simp
qed

lemma distinct_static_cache: "distinct (map fst static_cache)"
  by (simp add: static_cache_def STATIC_TOKENS_def)

lemma distinct_static_index: "distinct (map fst static_index)"
  by (simp add: static_index_def STATIC_TOKENS_def static_symbols)

lemma static_cache_normalized:
  "(k, t) \<in> set static_cache \<Longrightarrow> normalizeAddress k = Inr k \<and> address t = k"
  by (auto simp: static_cache_def STATIC_TOKENS_def norm_static)

lemma static_index_normalized: "(s, a) \<in> set static_index \<Longrightarrow> normalizeAddress a = Inr a"
  by (auto simp: static_index_def STATIC_TOKENS_def norm_static)

lemma filter_static_cache: "filter (\<lambda>(k, t). isStatic t) static_cache = static_cache"
  by (simp add: static_cache_def STATIC_TOKENS_def)

lemma inv_init:
  "inv \<lparr>cache = static_cache, symbolIndex = static_index, baseUrl = url, provider = None\<rparr>"
  unfolding inv_def
  using distinct_static_cache distinct_static_index static_cache_normalized
    static_index_normalized filter_static_cache
  by auto


lemma addToCache_cases:
  assumes "addToCache st token isS now = Inr (c, st')"
  obtains
    (kept) a where "normalizeAddress (address token) = Inr a"
      "map_of (cache st) a = Some c" "isStatic c" "st' = st"
  | (written) a where "normalizeAddress (address token) = Inr a"
      "\<forall>x. map_of (cache st) a = Some x \<longrightarrow> \<not> isStatic x"
      "address c = a" "isStatic c = isS" "decimals c = decimals token"
      "symbol c = symbol token" "lastUpdated c = now"
      "cache st' = AList.update a c (cache st)"
      "symbolIndex st' =
         (if \<not> truthy (map_of (symbolIndex st) (toUpperCase (symbol token))) \<or>
             \<not> (case map_of (cache st') (the (map_of (symbolIndex st) (toUpperCase (symbol token)))) of
                  None \<Rightarrow> False | Some x \<Rightarrow> isStatic x)
          then AList.update (toUpperCase (symbol token)) a (symbolIndex st)
          else symbolIndex st)"
      "baseUrl st' = baseUrl st" "provider st' = provider st"
proof -
  from assms obtain a where a: "normalizeAddress (address token) = Inr a"
    by (auto simp: addToCache_def split: sum.splits)
  show thesis
  proof (cases "case map_of (cache st) a of None \<Rightarrow> False | Some x \<Rightarrow> isStatic x")
    case True
    with assms a have "map_of (cache st) a = Some c" "isStatic c" "st' = st"
      by (auto simp: addToCache_def split: option.splits)
    with a show thesis by (rule kept)
  next
    case False
    then have ns: "\<forall>x. map_of (cache st) a = Some x \<longrightarrow> \<not> isStatic x"
      by (auto split: option.splits)
    from assms a False show thesis
      by (intro written [OF a ns])
         (auto simp: addToCache_def toCachedToken_def Let_def split: option.splits)
  qed
qed


lemma normalized_nonempty: "normalizeAddress a = Inr k \<Longrightarrow> k \<noteq> []"
  using normalized_shape(1) [of a k] by auto

lemma inv_cache_update:
  assumes i: "inv st"
    and a: "normalizeAddress x = Inr a"
    and ns: "\<forall>y. map_of (cache st) a = Some y \<longrightarrow> \<not> isStatic y"
    and c: "address c = a" "\<not> isStatic c"
    and st': "cache st' = AList.update a c (cache st)" "symbolIndex st' = symbolIndex st"
  shows "inv st'"
proof (rule invI)
  note d = invD(2) [OF i]
  from ns d have "\<forall>v'. (a, v') \<in> set (cache st) \<longrightarrow> \<not> isStatic v'" by simp
  then have "filter (\<lambda>(k, t). isStatic t) (AList.update a c (cache st)) =
      filter (\<lambda>(k, t). isStatic t) (cache st)"
    using c(2) by (intro filter_update_other) auto
  then show "filter (\<lambda>(k, t). isStatic t) (cache st') = static_cache"
    by (simp only: st' invD(1) [OF i])
  show "distinct (map fst (cache st'))"
    unfolding st' using d by (rule distinct_update)
  show "distinct (map fst (symbolIndex st'))"
    unfolding st' by (rule invD(3) [OF i])
  show "normalizeAddress k = Inr k \<and> address t = k" if "(k, t) \<in> set (cache st')" for k t
  proof -
    from that set_update_subset [of a c "cache st"]
    have "(k, t) = (a, c) \<or> (k, t) \<in> set (cache st)" unfolding st' by blast
    then show ?thesis
      using invD(4) [OF i] c(1) normalizeAddress_fixed [OF a] by blast
  qed
  show "normalizeAddress a' = Inr a'" if "(s, a') \<in> set (symbolIndex st')" for s a'
    using that invD(5) [OF i] unfolding st' by blast
  show "map_of (symbolIndex st') s = Some a'" if "(s, a') \<in> set static_index" for s a'
    using that invD(6) [OF i] unfolding st' by blast
qed

lemma inv_index_update:
  assumes i: "inv st"
    and a: "normalizeAddress x = Inr a"
    and u: "\<not> truthy (map_of (symbolIndex st) u) \<or>
             \<not> (case map_of (cache st) (the (map_of (symbolIndex st) u)) of
                  None \<Rightarrow> False | Some x \<Rightarrow> isStatic x)"
    and st': "cache st' = cache st" "symbolIndex st' = AList.update u a (symbolIndex st)"
  shows "inv st'"
proof (rule invI)
  show "filter (\<lambda>(k, t). isStatic t) (cache st') = static_cache"
    unfolding st' by (rule invD(1) [OF i])
  show "distinct (map fst (cache st'))"
    unfolding st' by (rule invD(2) [OF i])
  show "distinct (map fst (symbolIndex st'))"
    unfolding st' using invD(3) [OF i] by (rule distinct_update)
  show "normalizeAddress k = Inr k \<and> address t = k" if "(k, t) \<in> set (cache st')" for k t
    using that invD(4) [OF i] unfolding st' by blast
  show "normalizeAddress a' = Inr a'" if "(s, a') \<in> set (symbolIndex st')" for s a'
  proof -
    from that set_update_subset [of u a "symbolIndex st"]
    have "(s, a') = (u, a) \<or> (s, a') \<in> set (symbolIndex st)" unfolding st' by blast
    then show ?thesis
      using invD(5) [OF i] normalizeAddress_fixed [OF a] by blast
  qed
  show "map_of (symbolIndex st') s = Some k" if sk: "(s, k) \<in> set static_index" for s k
  proof -
    from invD(6) [OF i sk] have m: "map_of (symbolIndex st) s = Some k" .
    from static_index_cache [OF sk] obtain t where t: "(k, t) \<in> set static_cache" by blast
    with inv_static_iff [OF i] have kt: "map_of (cache st) k = Some t" "isStatic t" by blast+
    from static_index_normalized [OF sk] have "k \<noteq> []" by (rule normalized_nonempty)
    with m kt u have "u \<noteq> s" by (auto simp: truthy_def)
    with m show ?thesis unfolding st' by (simp add: update_conv')
  qed
qed

lemma inv_addToCache:
  assumes i: "inv st" and r: "addToCache st token False now = Inr (c, st')"
  shows "inv st'"
  using r
proof (cases rule: addToCache_cases)
  case (kept a)
  with i show ?thesis by simp
next
  case (written a)
  let ?mid = "st\<lparr>cache := AList.update a c (cache st)\<rparr>"
  have mid: "inv ?mid"
    using i written(1,2,3) by (rule inv_cache_update) (simp_all add: written(4))
  show ?thesis
  proof (cases "symbolIndex st' = symbolIndex st")
    case True
    show ?thesis
      using i written(1,2,3) by (rule inv_cache_update) (simp_all add: written(4,8) True)
  next
    case False
    with written(9) have
      u: "\<not> truthy (map_of (symbolIndex ?mid) (toUpperCase (symbol token))) \<or>
          \<not> (case map_of (cache ?mid) (the (map_of (symbolIndex ?mid) (toUpperCase (symbol token)))) of
                  None \<Rightarrow> False | Some x \<Rightarrow> isStatic x)"
      and e: "symbolIndex st' = AList.update (toUpperCase (symbol token)) a (symbolIndex ?mid)"
      by (auto simp: written(8) split: if_splits)
    show ?thesis
      using mid written(1) u by (rule inv_index_update) (simp_all add: written(8) e)
  qed
qed


lemma inv_frame:
  assumes "inv st" "cache st' = cache st" "symbolIndex st' = symbolIndex st"
  shows "inv st'"
  using assms unfolding inv_def by (elim conjE, intro conjI) simp_all

lemma inv_cacheOnChainDecimals:
  assumes i: "inv st" and r: "cacheOnChainDecimals st now x d = Inr st'"
  shows "inv st'"
proof -
  from r obtain a where a: "normalizeAddress x = Inr a"
    by (auto simp: cacheOnChainDecimals_def split: sum.splits)
  show ?thesis
  proof (cases "map_of (cache st) a = None")
    case False
    with r a have "st' = st" by (simp add: cacheOnChainDecimals_def)
    with i show ?thesis by simp
  next
    case True
    let ?c = "\<lparr>address = a, symbol = slice_first 10 a @ ''...'' @ slice_last 6 a,
                name = ''Unknown Token'', decimals = d, logoUri = None,
                lastDailyVolumeUsd = 0, tags = [], extensions = [], isStatic = False,
                lastUpdated = now\<rparr>"
    from r a True have st': "st' = st\<lparr>cache := AList.update a ?c (cache st)\<rparr>"
      by (simp add: cacheOnChainDecimals_def Let_def)
    show ?thesis
      using i a by (rule inv_cache_update [where c = ?c]) (simp_all add: True st')
  qed
qed

text \<open>The loops of \<open>clearDynamicCache\<close> are filters when keys are not repeated.\<close>

lemma clearCacheLoop_filter:
  "clearCacheLoop es c =
     filter (\<lambda>x. fst x \<notin> set (map fst (filter (\<lambda>e. \<not> isStatic (snd e)) es))) c"
proof (induction es c rule: clearCacheLoop.induct)
  case (1 c)
  show ?case by simp
next
  case (2 addr token rest c)
  let ?Q = "\<lambda>x. fst x \<notin> set (map fst (filter (\<lambda>e. \<not> isStatic (snd e)) rest))"
  show ?case
  proof (cases "isStatic token")
    case True
    with 2 have "clearCacheLoop rest c = filter ?Q c" by simp
    with True show ?thesis by simp
  next
    case False
    with 2 have "clearCacheLoop rest (AList.delete addr c) = filter ?Q (AList.delete addr c)"
      by simp
    then have "clearCacheLoop ((addr, token) # rest) c =
        filter (\<lambda>x. fst x \<noteq> addr \<and> ?Q x) c"
      using False by (simp add: AList.delete_eq split_def eq_commute)
    with False show ?thesis by simp
  qed
qed


lemma clearCacheLoop_self:
  assumes "distinct (map fst c)"
  shows "clearCacheLoop c c = filter (\<lambda>(k, t). isStatic t) c"
  unfolding clearCacheLoop_filter
proof (rule filter_cong [OF refl])
  fix x assume x: "x \<in> set c"
  have "e = x" if "e \<in> set c" "fst e = fst x" for e
    using assms x that by (metis eq_key_imp_eq_value prod.collapse)
  then have "fst x \<in> set (map fst (filter (\<lambda>e. \<not> isStatic (snd e)) c)) \<longleftrightarrow> \<not> isStatic (snd x)"
    using x by auto
  then show "(fst x \<notin> set (map fst (filter (\<lambda>e. \<not> isStatic (snd e)) c))) =
      (case x of (k, t) \<Rightarrow> isStatic t)"
    by (simp add: split_def)
qed

lemma clearIndexLoop_filter:
  "clearIndexLoop c es ix =
     filter (\<lambda>x. fst x \<notin> set (map fst (filter (\<lambda>e. map_of c (snd e) = None) es))) ix"
proof (induction c es ix rule: clearIndexLoop.induct)
  case (1 c ix)
  show ?case by simp
next
  case (2 c symb addr rest ix)
  let ?Q = "\<lambda>x. fst x \<notin> set (map fst (filter (\<lambda>e. map_of c (snd e) = None) rest))"
  show ?case
  proof (cases "map_of c addr")
    case (Some y)
    with 2 have "clearIndexLoop c rest ix = filter ?Q ix" by simp
    with Some show ?thesis by simp
  next
    case None
    note True = this
    with 2 have "clearIndexLoop c rest (AList.delete symb ix) = filter ?Q (AList.delete symb ix)"
      by simp
    then have "clearIndexLoop c ((symb, addr) # rest) ix =
        filter (\<lambda>x. fst x \<noteq> symb \<and> ?Q x) ix"
      using True by (simp add: AList.delete_eq split_def eq_commute)
    with True show ?thesis by simp
  qed
qed

lemma clearIndexLoop_self:
  assumes "distinct (map fst ix)"
  shows "clearIndexLoop c ix ix = filter (\<lambda>(s, a). map_of c a \<noteq> None) ix"
  unfolding clearIndexLoop_filter
proof (rule filter_cong [OF refl])
  fix x assume x: "x \<in> set ix"
  have "e = x" if "e \<in> set ix" "fst e = fst x" for e
    using assms x that by (metis eq_key_imp_eq_value prod.collapse)
  then have "fst x \<in> set (map fst (filter (\<lambda>e. map_of c (snd e) = None) ix)) \<longleftrightarrow>
      map_of c (snd x) = None"
    using x by auto
  then show "(fst x \<notin> set (map fst (filter (\<lambda>e. map_of c (snd e) = None) ix))) =
      (case x of (s, a) \<Rightarrow> map_of c a \<noteq> None)"
    by (simp add: split_def)
qed

lemma clearDynamicCache_eq:
  assumes i: "inv st"
  shows "clearDynamicCache st =
     st\<lparr>cache := static_cache,
        symbolIndex := filter (\<lambda>(s, a). map_of static_cache a \<noteq> None) (symbolIndex st)\<rparr>"
  by (simp add: clearDynamicCache_def Let_def clearCacheLoop_self [OF invD(2) [OF i]]
        clearIndexLoop_self [OF invD(3) [OF i]] invD(1) [OF i])

lemma inv_clearDynamicCache:
  assumes i: "inv st"
  shows "inv (clearDynamicCache st)"
  unfolding clearDynamicCache_eq [OF i]
proof (rule invI)
  let ?st' = "st\<lparr>cache := static_cache,
        symbolIndex := filter (\<lambda>(s, a). map_of static_cache a \<noteq> None) (symbolIndex st)\<rparr>"
  show "filter (\<lambda>(k, t). isStatic t) (cache ?st') = static_cache"
    by (simp add: filter_static_cache)
  show "distinct (map fst (cache ?st'))"
    by (simp add: distinct_static_cache)
  show "distinct (map fst (symbolIndex ?st'))"
    using invD(3) [OF i] by (simp add: distinct_map_filter)
  show "normalizeAddress k = Inr k \<and> address t = k" if "(k, t) \<in> set (cache ?st')" for k t
    using that static_cache_normalized by simp
  show "normalizeAddress a' = Inr a'" if "(s, a') \<in> set (symbolIndex ?st')" for s a'
    using that invD(5) [OF i] by auto
  show "map_of (symbolIndex ?st') s = Some k" if sk: "(s, k) \<in> set static_index" for s k
  proof -
    from invD(6) [OF i sk] have m: "map_of (symbolIndex st) s = Some k" .
    from static_index_cache [OF sk] obtain t where "(k, t) \<in> set static_cache" by blast
    then have "map_of static_cache k \<noteq> None"
      by (simp add: map_of_eq_None_iff) force
    with map_of_filter_in [OF m, of "\<lambda>s a. map_of static_cache a \<noteq> None"]
    show ?thesis by simp
  qed
qed


subsection \<open>What the asynchronous methods do to the state\<close>

lemma getTokenByAddress_state:
  assumes "getTokenByAddress w st a = (r, st', tr)"
  shows "st' = st \<or> (\<exists>token c. r = Inr c \<and> addToCache st token False (date_now w) = Inr (c, st'))"
  using assms
  by (auto simp: getTokenByAddress_def Let_def split: sum.splits option.splits if_splits prod.splits)

lemma getTokenBySymbol_state:
  assumes "getTokenBySymbol w st a = (r, st', tr)"
  shows "st' = st \<or> (\<exists>token c. r = Inr c \<and> addToCache st token False (date_now w) = Inr (c, st'))"
  using assms
  by (auto simp: getTokenBySymbol_def Let_def split: sum.splits option.splits if_splits prod.splits)

lemma inv_getTokenByAddress:
  assumes "inv st" "getTokenByAddress w st a = (r, st', tr)"
  shows "inv st'"
  using getTokenByAddress_state [OF assms(2)] assms(1) by (auto intro: inv_addToCache)

lemma inv_getTokenBySymbol:
  assumes "inv st" "getTokenBySymbol w st a = (r, st', tr)"
  shows "inv st'"
  using getTokenBySymbol_state [OF assms(2)] assms(1) by (auto intro: inv_addToCache)

lemma inv_resolveSymbolAsync:
  assumes "inv st" "resolveSymbolAsync w st a = (r, st', tr)"
  shows "inv st'"
proof (cases "st' = st")
  case True
  with assms(1) show ?thesis by simp
next
  case False
  with assms(2) obtain r0 tr0 where "getTokenBySymbol w st a = (r0, st', tr0)"
    by (auto simp: resolveSymbolAsync_def split: sum.splits if_splits prod.splits)
  with assms(1) show ?thesis by (rule inv_getTokenBySymbol)
qed

lemma getDecimalsAsync_state:
  assumes "getDecimalsAsync w st a = (r, st', tr)"
  shows "st' = st \<or>
         (\<exists>r1 st1 tr1. getTokenByAddress w st a = (r1, st1, tr1) \<and>
            (st' = st1 \<or> (\<exists>d. cacheOnChainDecimals st1 (date_now w) a d = Inr st')))"
  using assms
  by (auto simp: getDecimalsAsync_def split: sum.splits option.splits if_splits prod.splits)

lemma inv_getDecimalsAsync:
  assumes "inv st" "getDecimalsAsync w st a = (r, st', tr)"
  shows "inv st'"
proof -
  from getDecimalsAsync_state [OF assms(2)] consider "st' = st"
    | r1 st1 tr1 where "getTokenByAddress w st a = (r1, st1, tr1)" "st' = st1"
    | r1 st1 tr1 d where "getTokenByAddress w st a = (r1, st1, tr1)"
        "cacheOnChainDecimals st1 (date_now w) a d = Inr st'"
    by blast
  then show ?thesis
  proof cases
    case 1
    with assms(1) show ?thesis by simp
  next
    case 2
    with inv_getTokenByAddress [OF assms(1) 2(1)] show ?thesis by simp
  next
    case 3
    from inv_getTokenByAddress [OF assms(1) 3(1)] 3(2) show ?thesis
      by (rule inv_cacheOnChainDecimals)
  qed
qed

lemma inv_getTokenInfoAsync:
  assumes "inv st" "getTokenInfoAsync w st a = (r, st', tr)"
  shows "inv st'"
proof (cases "startsWith a ''0x''")
  case True
  with assms(2) have "getTokenByAddress w st a = (r, st', tr)"
    by (simp add: getTokenInfoAsync_def)
  with assms(1) show ?thesis by (rule inv_getTokenByAddress)
next
  case False
  with assms(2) have "getTokenBySymbol w st a = (r, st', tr)"
    by (simp add: getTokenInfoAsync_def)
  with assms(1) show ?thesis by (rule inv_getTokenBySymbol)
qed

lemma reachable_inv: "reachable st \<Longrightarrow> inv st"
proof (induction rule: reachable.induct)
  case (r_new url st)
  then show ?case using inv_init [of url] by (simp add: new_TokenService_eq)
next
  case (r_setProvider st p)
  from r_setProvider.IH show ?case by (rule inv_frame) (simp_all add: setProvider_def)
next
  case (r_getTokenByAddress st w a r st' tr)
  from r_getTokenByAddress.IH r_getTokenByAddress.hyps(2) show ?case by (rule inv_getTokenByAddress)
next
  case (r_getTokenBySymbol st w a r st' tr)
  from r_getTokenBySymbol.IH r_getTokenBySymbol.hyps(2) show ?case by (rule inv_getTokenBySymbol)
next
  case (r_resolveSymbolAsync st w a r' st' tr)
  from r_resolveSymbolAsync.IH r_resolveSymbolAsync.hyps(2) show ?case by (rule inv_resolveSymbolAsync)
next
  case (r_getDecimalsAsync st w a r'' st' tr)
  from r_getDecimalsAsync.IH r_getDecimalsAsync.hyps(2) show ?case by (rule inv_getDecimalsAsync)
next
  case (r_getTokenInfoAsync st w a r st' tr)
  from r_getTokenInfoAsync.IH r_getTokenInfoAsync.hyps(2) show ?case by (rule inv_getTokenInfoAsync)
next
  case (r_clearDynamicCache st)
  from r_clearDynamicCache.IH show ?case by (rule inv_clearDynamicCache)
qed

subsection \<open>Idempotent normalization\<close>

text \<open>
  C8. For every address string \<open>x\<close> that the normalizer accepts, with result \<open>y\<close>:
  normalizing \<open>y\<close> again gives \<open>y\<close>; \<open>y\<close> is \<open>0x\<close> followed by 64 lowercase
  hexadecimal digits; every spelling of \<open>x\<close> in another case and every form of \<open>x\<close>
  padded with zeros normalizes to the same \<open>y\<close>. The normalizer is a function of its
  argument alone.
\<close>

theorem normalizeAddress_idempotent:
  assumes "normalizeAddress x = Inr y"
  shows "normalizeAddress y = Inr y \<and>
         length y = 66 \<and> startsWith y ''0x'' \<and> toLowerCase y = y \<and>
         set (drop 2 y) \<subseteq> set ''0123456789abcdef'' \<and>
         (\<forall>x'. toLowerCase x' = toLowerCase x \<longrightarrow> normalizeAddress x' = Inr y) \<and>
         (\<forall>k. normalizeAddress (''0x'' @ replicate k CHR ''0'' @ removeHexPrefix x) = Inr y)"
proof -
  have "normalizeAddress x' = Inr y" if "toLowerCase x' = toLowerCase x" for x'
    using normalizeAddress_case [OF that] assms by simp
  with normalizeAddress_fixed [OF assms] normalized_shape [OF assms]
    normalizeAddress_padded [OF assms]
  show ?thesis by blast
qed

theorem normalizeAddress_idempotent_witness:
  "normalizeAddress ''0x12aB'' =
     Inr ''0x00000000000000000000000000000000000000000000000000000000000012ab'' \<and>
   normalizeAddress ''0x00000000000000000000000000000000000000000000000000000000000012ab'' =
     Inr ''0x00000000000000000000000000000000000000000000000000000000000012ab'' \<and>
   normalizeAddress ''0X12AB'' =
     Inr ''0x00000000000000000000000000000000000000000000000000000000000012ab'' \<and>
   normalizeAddress ''0x00012aB'' =
     Inr ''0x00000000000000000000000000000000000000000000000000000000000012ab''"
proof -
  let ?y = "''0x00000000000000000000000000000000000000000000000000000000000012ab''"
  have e: "normalizeAddress ''0x12aB'' = Inr ?y"
  proof -
    have "normalizeAddress (''0x'' @ ''12aB'') =
            Inr (''0x'' @ replicate (64 - length ''12ab'') CHR ''0'' @ ''12ab'')"
      by (rule normalizeAddress_0x_eval [where n = "0x12ab"])
         (simp_all add: hexValue_def to_hex.simps hexChar_def ADDR_BOUND_def)
    then show ?thesis by (simp add: replicate_numeral)
  qed
  have c: "toLowerCase ''0X12AB'' = toLowerCase ''0x12aB''"
    by (simp add: toLowerCase_def lowerChar_def)
  have p: "''0x'' @ replicate 3 CHR ''0'' @ removeHexPrefix ''0x12aB'' = ''0x00012aB''"
    by (simp add: removeHexPrefix_def toLowerCase_def lowerChar_def replicate_numeral)
  note i = normalizeAddress_idempotent [OF e]
  from i have a: "normalizeAddress ?y = Inr ?y"
    by (rule conjunct1)
  from i have "\<forall>x'. toLowerCase x' = toLowerCase ''0x12aB'' \<longrightarrow> normalizeAddress x' = Inr ?y"
    by (elim conjE)
  then have "toLowerCase ''0X12AB'' = toLowerCase ''0x12aB'' \<longrightarrow> normalizeAddress ''0X12AB'' = Inr ?y"
    by (rule spec)
  with c have b: "normalizeAddress ''0X12AB'' = Inr ?y"
    by (rule rev_mp)
  from i have "\<forall>k. normalizeAddress (''0x'' @ replicate k CHR ''0'' @ removeHexPrefix ''0x12aB'') =
       Inr ?y"
    by (elim conjE)
  then have "normalizeAddress (''0x'' @ replicate 3 CHR ''0'' @ removeHexPrefix ''0x12aB'') = Inr ?y"
    by (rule spec)
  then have d: "normalizeAddress ''0x00012aB'' = Inr ?y"
    by (simp only: p)
  from e a b d show ?thesis by (intro conjI)
qed

lemma new_TokenService_default: "new_TokenService ''https://starknet.api.avnu.fi'' = Inr service0"
  by (simp only: new_TokenService_eq service0_def)

lemma reachable_service0: "reachable service0"
  using new_TokenService_default by (rule r_new)

subsection \<open>Normalized keys\<close>


lemma ETH_eq:
  "ETH = \<lparr>address = ''0x049d36570d4e46f48e99674bd3fcc84644ddd6b96f7c741b1562b82f9e004dc7'',
       symbol = ''ETH'', name = ''Ether'', decimals = 18,
       logoUri = None, lastDailyVolumeUsd = 0, tags = [''Verified''], extensions = [],
       isStatic = True, lastUpdated = 0\<rparr>"
  by (simp add: ETH_def STATIC_TOKENS_def)




subsection \<open>Static-token protection\<close>

lemma addToCache_static_kept:
  assumes "normalizeAddress (address token) = Inr a" "map_of (cache st) a = Some r" "isStatic r"
  shows "addToCache st token isS now = Inr (r, st)"
  using assms by (simp add: addToCache_def)

lemma addToCache_static_symbol:
  assumes i: "inv st"
    and s: "map_of (symbolIndex st) s = Some a" "map_of (cache st) a = Some r" "isStatic r"
    and r: "addToCache st token isS now = Inr (c, st')"
  shows "map_of (symbolIndex st') s = Some a \<and> map_of (cache st') a = Some r"
  using r
proof (cases rule: addToCache_cases)
  case (kept a')
  with s show ?thesis by simp
next
  case (written a')
  from written(2) s(2,3) have ne: "a' \<noteq> a" by auto
  then have c: "map_of (cache st') a = Some r"
    using s(2) by (simp add: written(8) update_conv')
  from invD(2) [OF i] s(2) have "(a, r) \<in> set (cache st)" by simp
  from invD(4) [OF i this] have "a \<noteq> []" using normalized_nonempty by blast
  then have t: "truthy (Some a)" by (simp add: truthy_def)
  have "map_of (symbolIndex st') s = Some a"
  proof (cases "toUpperCase (symbol token) = s")
    case True
    with s(1) have "map_of (symbolIndex st) (toUpperCase (symbol token)) = Some a" by simp
    with t c s(3) have "symbolIndex st' = symbolIndex st"
      by (simp add: written(9))
    with s(1) show ?thesis by simp
  next
    case False
    have "symbolIndex st' = symbolIndex st \<or>
        symbolIndex st' = AList.update (toUpperCase (symbol token)) a' (symbolIndex st)"
      by (subst (1 2) written(9)) simp
    with False s(1) show ?thesis by (auto simp: update_conv')
  qed
  with c show ?thesis by simp
qed

text \<open>
  C1. In a reachable state, a write (\<open>addToCache\<close>, with any record, any flag, at any
  time) to an address whose cache entry is static returns the static record and leaves
  the service as it was; it does not throw. A symbol that the symbol index maps to the
  address of a static record still maps to that address, and that record is still cached
  there, after any write that \<open>addToCache\<close> performs.
\<close>

theorem static_token_protection:
  assumes "reachable st"
  shows "(\<forall>token a r isS now.
            normalizeAddress (address token) = Inr a \<longrightarrow> map_of (cache st) a = Some r \<longrightarrow>
            isStatic r \<longrightarrow> addToCache st token isS now = Inr (r, st)) \<and>
         (\<forall>s a r token isS now c st'.
            map_of (symbolIndex st) s = Some a \<longrightarrow> map_of (cache st) a = Some r \<longrightarrow>
            isStatic r \<longrightarrow> addToCache st token isS now = Inr (c, st') \<longrightarrow>
            map_of (symbolIndex st') s = Some a \<and> map_of (cache st') a = Some r)"
  using addToCache_static_kept addToCache_static_symbol [OF reachable_inv [OF assms]]
  by blast


lemma norm_LORDS:
  "normalizeAddress ''0x0124aeb495b947201f5fac96fd1138e326ad86195b98df6dec9009158a533b49'' =
     Inr ''0x0124aeb495b947201f5fac96fd1138e326ad86195b98df6dec9009158a533b49''"
proof -
  have "normalizeAddress (''0x'' @ ''0124aeb495b947201f5fac96fd1138e326ad86195b98df6dec9009158a533b49'') =
     Inr (''0x'' @ replicate (64 - length ''124aeb495b947201f5fac96fd1138e326ad86195b98df6dec9009158a533b49'') CHR ''0'' @
       ''124aeb495b947201f5fac96fd1138e326ad86195b98df6dec9009158a533b49'')"
    by (rule normalizeAddress_0x_eval
          [where n = "0x0124aeb495b947201f5fac96fd1138e326ad86195b98df6dec9009158a533b49"])
       (simp_all add: hexValue_def to_hex.simps hexChar_def ADDR_BOUND_def)
  then show ?thesis by (simp add: replicate_numeral)
qed

lemma ETH_lookup:
  "map_of (cache service0) (address ETH) = Some ETH"
  "map_of (symbolIndex service0) ''ETH'' = Some (address ETH)"
  by (simp_all add: ETH_eq service0_def static_cache_def static_index_def STATIC_TOKENS_def
        static_symbols)

lemma fakeETH_address: "normalizeAddress (address fakeETH) = Inr (address ETH)"
  by (simp add: fakeETH_def ETH_eq norm_ETH)

lemma addToCache_symbol_thief:
  "\<exists>c st'. addToCache service0 (MOCK_LORDS_TOKEN\<lparr>symbol := ''ETH''\<rparr>) False 1000 = Inr (c, st') \<and>
     \<not> isStatic c \<and> map_of (cache st') (address MOCK_LORDS_TOKEN) = Some c"
  by (simp add: addToCache_def toCachedToken_def MOCK_LORDS_TOKEN_def norm_LORDS service0_def
        static_cache_def STATIC_TOKENS_def Let_def update_conv')

theorem static_token_protection_witness:
  "reachable service0 \<and>
   normalizeAddress (address fakeETH) = Inr (address ETH) \<and>
   map_of (cache service0) (address ETH) = Some ETH \<and> isStatic ETH \<and>
   decimals fakeETH = 8 \<and> decimals ETH = 18 \<and>
   addToCache service0 fakeETH False 1000 = Inr (ETH, service0) \<and>
   map_of (symbolIndex service0) ''ETH'' = Some (address ETH) \<and>
   (case addToCache service0 (MOCK_LORDS_TOKEN\<lparr>symbol := ''ETH''\<rparr>) False 1000 of
      Inl e \<Rightarrow> False
    | Inr (c, st') \<Rightarrow>
        \<not> isStatic c \<and> map_of (cache st') (address MOCK_LORDS_TOKEN) = Some c \<and>
        map_of (symbolIndex st') ''ETH'' = Some (address ETH) \<and>
        map_of (cache st') (address ETH) = Some ETH)"
proof -
  note p = static_token_protection [OF reachable_service0]
  have s: "isStatic ETH" by (simp add: ETH_eq)
  from p have "\<forall>token a r isS now.
      normalizeAddress (address token) = Inr a \<longrightarrow> map_of (cache service0) a = Some r \<longrightarrow>
      isStatic r \<longrightarrow> addToCache service0 token isS now = Inr (r, service0)"
    by (rule conjunct1)
  with fakeETH_address ETH_lookup(1) s
  have 1: "addToCache service0 fakeETH False 1000 = Inr (ETH, service0)" by blast
  from addToCache_symbol_thief obtain c st' where
    a: "addToCache service0 (MOCK_LORDS_TOKEN\<lparr>symbol := ''ETH''\<rparr>) False 1000 = Inr (c, st')"
    and c: "\<not> isStatic c" "map_of (cache st') (address MOCK_LORDS_TOKEN) = Some c"
    by blast
  from p have "\<forall>s a r token isS now c st'.
      map_of (symbolIndex service0) s = Some a \<longrightarrow> map_of (cache service0) a = Some r \<longrightarrow>
      isStatic r \<longrightarrow> addToCache service0 token isS now = Inr (c, st') \<longrightarrow>
      map_of (symbolIndex st') s = Some a \<and> map_of (cache st') a = Some r"
    by (rule conjunct2)
  with ETH_lookup s a
  have 2: "map_of (symbolIndex st') ''ETH'' = Some (address ETH) \<and>
      map_of (cache st') (address ETH) = Some ETH"
    by blast
  have d: "decimals fakeETH = 8" "decimals ETH = 18"
    by (simp_all add: fakeETH_def ETH_eq)
  from reachable_service0 fakeETH_address ETH_lookup s d 1 2 c show ?thesis
    by (simp add: a)
qed

subsection \<open>Clearing the dynamic cache\<close>

lemma static_cache_of_token:
  "t \<in> set STATIC_TOKENS \<Longrightarrow> (address t, t) \<in> set static_cache"
  by (auto simp: static_cache_def)

lemma static_index_of_token:
  "t \<in> set STATIC_TOKENS \<Longrightarrow> (toUpperCase (symbol t), address t) \<in> set static_index"
  by (auto simp: static_index_def)

lemma resolveSymbol_indexed:
  assumes "inv st" "map_of (symbolIndex st) (toUpperCase x) = Some a"
  shows "resolveSymbol st x = Inr a"
proof -
  from assms have "(toUpperCase x, a) \<in> set (symbolIndex st)"
    using invD(3) [OF assms(1)] by simp
  from invD(5) [OF assms(1) this] have "a \<noteq> []" by (rule normalized_nonempty)
  with assms(2) show ?thesis by (simp add: resolveSymbol_def truthy_def)
qed

text \<open>
  C7. In every reachable state, after \<open>clearDynamicCache\<close> the cache is the list of the
  static-registry entries, so its size is the size of the registry; every static symbol
  resolves to its static address; and the clear changes neither the cache entry of a
  static address nor the index entry of a static symbol.
\<close>

theorem clearDynamicCache_keeps_static:
  assumes "reachable st"
  shows "cache (clearDynamicCache st) = static_cache \<and>
         getCacheSize (clearDynamicCache st) = length STATIC_TOKENS \<and>
         (\<forall>t \<in> set STATIC_TOKENS.
            resolveSymbol (clearDynamicCache st) (symbol t) = Inr (address t) \<and>
            map_of (cache (clearDynamicCache st)) (address t) = Some t \<and>
            map_of (cache st) (address t) = Some t \<and>
            map_of (symbolIndex (clearDynamicCache st)) (toUpperCase (symbol t)) =
              Some (address t) \<and>
            map_of (symbolIndex st) (toUpperCase (symbol t)) = Some (address t))"
proof -
  note i = reachable_inv [OF assms]
  note i' = inv_clearDynamicCache [OF i]
  have c: "cache (clearDynamicCache st) = static_cache"
    by (simp add: clearDynamicCache_eq [OF i])
  then have n: "getCacheSize (clearDynamicCache st) = length STATIC_TOKENS"
    by (simp add: getCacheSize_def static_cache_def)
  have "resolveSymbol (clearDynamicCache st) (symbol t) = Inr (address t) \<and>
        map_of (cache (clearDynamicCache st)) (address t) = Some t \<and>
        map_of (cache st) (address t) = Some t \<and>
        map_of (symbolIndex (clearDynamicCache st)) (toUpperCase (symbol t)) = Some (address t) \<and>
        map_of (symbolIndex st) (toUpperCase (symbol t)) = Some (address t)"
    if t: "t \<in> set STATIC_TOKENS" for t
  proof -
    note sc = static_cache_of_token [OF t] and si = static_index_of_token [OF t]
    from invD(6) [OF i' si] have 1:
      "map_of (symbolIndex (clearDynamicCache st)) (toUpperCase (symbol t)) = Some (address t)" .
    from invD(6) [OF i si] have 2:
      "map_of (symbolIndex st) (toUpperCase (symbol t)) = Some (address t)" .
    from inv_static_iff [OF i] sc have 3: "map_of (cache st) (address t) = Some t" by blast
    from inv_static_iff [OF i'] sc have 4:
      "map_of (cache (clearDynamicCache st)) (address t) = Some t" by blast
    from resolveSymbol_indexed [OF i' 1] 1 2 3 4 show ?thesis by simp
  qed
  with c n show ?thesis by blast
qed

lemma getTokenByAddress_lords:
  "getTokenByAddress world_lords service0 (address MOCK_LORDS_TOKEN) =
     (Inr LORDS_cached,
      service0\<lparr>cache := static_cache @ [(address MOCK_LORDS_TOKEN, LORDS_cached)],
               symbolIndex := static_index @ [(''LORDS'', address MOCK_LORDS_TOKEN)]\<rparr>,
      [FetchTokenByAddress (address MOCK_LORDS_TOKEN)])"
  by (simp add: getTokenByAddress_def world_lords_def service0_def static_cache_def
        static_index_def STATIC_TOKENS_def MOCK_LORDS_TOKEN_def LORDS_cached_def norm_LORDS
        addToCache_def toCachedToken_def toUpperCase_def upperChar_def truthy_def Let_def)

theorem clearDynamicCache_keeps_static_witness:
  "(case getTokenByAddress world_lords service0 (address MOCK_LORDS_TOKEN) of
      (r, st1, tr) \<Rightarrow>
        reachable st1 \<and> getCacheSize st1 = 5 \<and>
        resolveSymbol st1 ''LORDS'' = Inr (address MOCK_LORDS_TOKEN) \<and>
        getCacheSize (clearDynamicCache st1) = 4 \<and>
        cache (clearDynamicCache st1) = static_cache \<and>
        ETH \<in> set STATIC_TOKENS \<and>
        resolveSymbol (clearDynamicCache st1) ''ETH'' = Inr (address ETH) \<and>
        map_of (cache (clearDynamicCache st1)) (address ETH) = Some ETH)"
proof -
  let ?st1 = "service0\<lparr>cache := static_cache @ [(address MOCK_LORDS_TOKEN, LORDS_cached)],
               symbolIndex := static_index @ [(''LORDS'', address MOCK_LORDS_TOKEN)]\<rparr>"
  have r: "reachable ?st1"
    using reachable_service0 getTokenByAddress_lords by (rule r_getTokenByAddress)
  note k = clearDynamicCache_keeps_static [OF r]
  have n: "getCacheSize ?st1 = 5"
    by (simp add: getCacheSize_def static_cache_def STATIC_TOKENS_def)
  have l: "resolveSymbol ?st1 ''LORDS'' = Inr (address MOCK_LORDS_TOKEN)"
    by (simp add: resolveSymbol_def static_index_def STATIC_TOKENS_def toUpperCase_def
          upperChar_def truthy_def MOCK_LORDS_TOKEN_def)
  have e: "ETH \<in> set STATIC_TOKENS"
    by (simp add: ETH_def STATIC_TOKENS_def)
  from k have 1: "cache (clearDynamicCache ?st1) = static_cache"
    by (rule conjunct1)
  from k have 2: "getCacheSize (clearDynamicCache ?st1) = length STATIC_TOKENS"
    by (elim conjE)
  from k e have "resolveSymbol (clearDynamicCache ?st1) (symbol ETH) = Inr (address ETH) \<and>
      map_of (cache (clearDynamicCache ?st1)) (address ETH) = Some ETH"
    by blast
  then have 3: "resolveSymbol (clearDynamicCache ?st1) ''ETH'' = Inr (address ETH)"
    and 4: "map_of (cache (clearDynamicCache ?st1)) (address ETH) = Some ETH"
    by (simp_all add: ETH_eq)
  have 5: "length STATIC_TOKENS = 4"
    by (simp add: STATIC_TOKENS_def)
  from r n l 1 2 3 4 5 e show ?thesis
    by (simp only: getTokenByAddress_lords prod.case simp_thms)
qed

subsection \<open>The decimals fallback\<close>

lemma getTokenByAddress_miss:
  assumes "getDecimals st (date_now w) a = Inr None"
  shows "getTokenByAddress w st a =
     (case (case fetchTokenByAddress w a (baseUrl st) of
              Inl e \<Rightarrow> Inl e
            | Inr token \<Rightarrow> addToCache st token False (date_now w)) of
        Inl e \<Rightarrow>
          (Inl (Error RemoteFetchFailed
             (''Failed to fetch token by address '' @ a @ '': '' @ message e)),
           st, [FetchTokenByAddress a])
      | Inr (c, st') \<Rightarrow> (Inr c, st', [FetchTokenByAddress a]))"
  using assms
  by (auto simp: getDecimals_def getTokenByAddress_def Let_def
           split: sum.splits option.splits if_splits)

lemma getTokenByAddress_miss_trace:
  assumes "getDecimals st (date_now w) a = Inr None" "getTokenByAddress w st a = (r1, st1, tr1)"
  shows "tr1 = [FetchTokenByAddress a]" "isl r1 \<Longrightarrow> st1 = st"
  using assms(2) unfolding getTokenByAddress_miss [OF assms(1)]
  by (auto split: sum.splits prod.splits)

lemma addToCache_succeeds:
  assumes "normalizeAddress (address token) = Inr k"
  shows "\<exists>c st'. addToCache st token isS now = Inr (c, st')"
  using assms by (simp add: addToCache_def toCachedToken_def Let_def)

lemma addToCache_fails:
  assumes "normalizeAddress (address token) = Inl e"
  shows "addToCache st token isS now = Inl e"
  using assms by (simp add: addToCache_def)

lemma getTokenByAddress_miss_fetch:
  assumes "getDecimals st (date_now w) a = Inr None" "getTokenByAddress w st a = (r1, st1, tr1)"
  shows "fetchTokenByAddress w a (baseUrl st) = Inl e \<Longrightarrow> isl r1"
    "fetchTokenByAddress w a (baseUrl st) = Inr token \<Longrightarrow>
       normalizeAddress (address token) = Inr k \<Longrightarrow> \<not> isl r1"
proof -
  show "isl r1" if "fetchTokenByAddress w a (baseUrl st) = Inl e"
    using assms(2) that unfolding getTokenByAddress_miss [OF assms(1)] by auto
  show "\<not> isl r1" if "fetchTokenByAddress w a (baseUrl st) = Inr token"
    "normalizeAddress (address token) = Inr k"
  proof -
    from addToCache_succeeds [OF that(2)] obtain c st2 where
      "addToCache st token False (date_now w) = Inr (c, st2)" by blast
    with assms(2) that(1) show ?thesis
      unfolding getTokenByAddress_miss [OF assms(1)] by auto
  qed
qed

lemma getDecimalsAsync_miss:
  assumes "getDecimals st (date_now w) a = Inr None" "getTokenByAddress w st a = (r1, st1, tr1)"
  shows "getDecimalsAsync w st a =
     (case r1 of
        Inr token \<Rightarrow> (Inr (decimals token), st1, [FetchTokenByAddress a])
      | Inl _ \<Rightarrow>
          (case provider st of
             None \<Rightarrow>
               (Inl (Error NoProviderConfigured
                  (''Token '' @ a @
                   '' not found and no RPC provider configured for on-chain fallback'')),
                st, [FetchTokenByAddress a])
           | Some p \<Rightarrow>
               (case contract_decimals w p a of
                  Inl e \<Rightarrow> (Inl e, st, [FetchTokenByAddress a, ContractDecimals a])
                | Inr d \<Rightarrow>
                    (case cacheOnChainDecimals st (date_now w) a d of
                       Inl e \<Rightarrow> (Inl e, st, [FetchTokenByAddress a, ContractDecimals a])
                     | Inr st'' \<Rightarrow>
                         (Inr d, st'', [FetchTokenByAddress a, ContractDecimals a])))))"
  using getTokenByAddress_miss_trace [OF assms] assms
  by (cases r1) (simp_all add: getDecimalsAsync_def split: option.splits sum.splits)

lemma getTokenByAddress_miss_badrecord:
  assumes "getDecimals st (date_now w) a = Inr None" "getTokenByAddress w st a = (r1, st1, tr1)"
    and "fetchTokenByAddress w a (baseUrl st) = Inr token"
    and "normalizeAddress (address token) = Inl e"
  shows "isl r1"
  using assms(2) unfolding getTokenByAddress_miss [OF assms(1)]
  by (auto simp: assms(3) addToCache_fails [OF assms(4)])

text \<open>
  C2, as the code has it. For an address that the cache does not answer (absent or
  expired), with \<open>r1\<close> the outcome of the remote tier \<open>getTokenByAddress\<close>: the remote
  source is called, and called first; the calls of \<open>getDecimalsAsync\<close> are the remote call
  alone or the remote call followed by the on-chain call; the on-chain call is made
  exactly when the remote tier failed and a provider is set; when the remote tier succeeds
  the remote call is the only call and its decimals are the result. The remote tier fails
  when the fetch is rejected, and also when the fetch answers with a record whose address
  the normalizer rejects; it succeeds when the fetch answers with a record whose address
  the normalizer accepts, and then the on-chain call is not made.
\<close>

theorem decimals_fallback_order:
  assumes "getDecimals st (date_now w) a = Inr None"
    and "getTokenByAddress w st a = (r1, st1, tr1)"
    and "getDecimalsAsync w st a = (r, st', tr)"
  shows "tr1 = [FetchTokenByAddress a] \<and>
         (tr = [FetchTokenByAddress a] \<or> tr = [FetchTokenByAddress a, ContractDecimals a]) \<and>
         (tr = [FetchTokenByAddress a, ContractDecimals a] \<longleftrightarrow> isl r1 \<and> provider st \<noteq> None) \<and>
         (\<forall>c. r1 = Inr c \<longrightarrow> tr = [FetchTokenByAddress a] \<and> r = Inr (decimals c)) \<and>
         (\<forall>e. fetchTokenByAddress w a (baseUrl st) = Inl e \<longrightarrow> isl r1) \<and>
         (\<forall>token e. fetchTokenByAddress w a (baseUrl st) = Inr token \<longrightarrow>
            normalizeAddress (address token) = Inl e \<longrightarrow> isl r1) \<and>
         (\<forall>token k. fetchTokenByAddress w a (baseUrl st) = Inr token \<longrightarrow>
            normalizeAddress (address token) = Inr k \<longrightarrow>
            \<not> isl r1 \<and> tr = [FetchTokenByAddress a])"
proof -
  note t = getTokenByAddress_miss_trace [OF assms(1,2)]
  note f = getTokenByAddress_miss_fetch [OF assms(1,2)]
  note b = getTokenByAddress_miss_badrecord [OF assms(1,2)]
  from assms(3) have d: "(r, st', tr) =
     (case r1 of
        Inr token \<Rightarrow> (Inr (decimals token), st1, [FetchTokenByAddress a])
      | Inl _ \<Rightarrow>
          (case provider st of
             None \<Rightarrow>
               (Inl (Error NoProviderConfigured
                  (''Token '' @ a @
                   '' not found and no RPC provider configured for on-chain fallback'')),
                st, [FetchTokenByAddress a])
           | Some p \<Rightarrow>
               (case contract_decimals w p a of
                  Inl e \<Rightarrow> (Inl e, st, [FetchTokenByAddress a, ContractDecimals a])
                | Inr d \<Rightarrow>
                    (case cacheOnChainDecimals st (date_now w) a d of
                       Inl e \<Rightarrow> (Inl e, st, [FetchTokenByAddress a, ContractDecimals a])
                     | Inr st'' \<Rightarrow>
                         (Inr d, st'', [FetchTokenByAddress a, ContractDecimals a])))))"
    by (simp only: getDecimalsAsync_miss [OF assms(1,2)])
  have 2: "tr = [FetchTokenByAddress a] \<or> tr = [FetchTokenByAddress a, ContractDecimals a]"
    using d by (auto split: sum.splits option.splits)
  have 3: "tr = [FetchTokenByAddress a, ContractDecimals a] \<longleftrightarrow> isl r1 \<and> provider st \<noteq> None"
    using d by (auto split: sum.splits option.splits)
  have 4: "tr = [FetchTokenByAddress a] \<and> r = Inr (decimals c)" if "r1 = Inr c" for c
    using d that by simp
  have 5: "\<not> isl r1 \<and> tr = [FetchTokenByAddress a]"
    if "fetchTokenByAddress w a (baseUrl st) = Inr token" "normalizeAddress (address token) = Inr k"
    for token k
  proof -
    from f(2) [OF that] have n: "\<not> isl r1" .
    then obtain c where "r1 = Inr c" by (cases r1) simp_all
    with 4 n show ?thesis by simp
  qed
  from t(1) 2 3 4 f(1) b 5 show ?thesis by blast
qed

lemma getDecimals_lords_miss:
  "getDecimals service0 (date_now world_lords) (address MOCK_LORDS_TOKEN) = Inr None"
  by (simp add: getDecimals_def MOCK_LORDS_TOKEN_def norm_LORDS service0_def static_cache_def
        STATIC_TOKENS_def)

subsection \<open>No provider\<close>

text \<open>
  C6. For an address that the cache does not answer (absent or expired), when the remote
  tier fails and no provider is set, \<open>getDecimalsAsync\<close> fails with the
  \<open>NoProviderConfigured\<close> error; its message contains the address as the caller gave it;
  the service is unchanged and the remote call is the only call made.
\<close>

theorem no_provider_configured:
  assumes "getDecimals st (date_now w) a = Inr None"
    and "getTokenByAddress w st a = (Inl e, st1, tr1)"
    and "provider st = None"
  shows "getDecimalsAsync w st a =
           (Inl (Error NoProviderConfigured
              (''Token '' @ a @
               '' not found and no RPC provider configured for on-chain fallback'')),
            st, [FetchTokenByAddress a])"
  using assms(3) by (simp add: getDecimalsAsync_miss [OF assms(1,2)])

lemma norm_1234:
  "normalizeAddress ''0x0000000000000000000000000000000000000000000000000000000000001234'' =
     Inr ''0x0000000000000000000000000000000000000000000000000000000000001234''"
proof -
  have "normalizeAddress (''0x'' @ ''0000000000000000000000000000000000000000000000000000000000001234'') =
     Inr (''0x'' @ replicate (64 - length ''1234'') CHR ''0'' @ ''1234'')"
    by (rule normalizeAddress_0x_eval [where n = "0x1234"])
       (simp_all add: hexValue_def to_hex.simps hexChar_def ADDR_BOUND_def)
  then show ?thesis by (simp add: replicate_numeral)
qed

lemma getDecimals_1234_miss:
  "getDecimals service0 (date_now world_down)
     ''0x0000000000000000000000000000000000000000000000000000000000001234'' = Inr None"
  by (simp add: getDecimals_def norm_1234 service0_def static_cache_def STATIC_TOKENS_def)

lemma getTokenByAddress_1234_down:
  "getTokenByAddress world_down service0
     ''0x0000000000000000000000000000000000000000000000000000000000001234'' =
   (Inl (Error RemoteFetchFailed
      (''Failed to fetch token by address '' @
       ''0x0000000000000000000000000000000000000000000000000000000000001234'' @ '': '' @
       ''avnu unavailable'')),
    service0, [FetchTokenByAddress ''0x0000000000000000000000000000000000000000000000000000000000001234''])"
  by (simp only: getTokenByAddress_miss [OF getDecimals_1234_miss])
     (simp add: world_down_def)

theorem no_provider_configured_witness:
  "getDecimals service0 (date_now world_down)
     ''0x0000000000000000000000000000000000000000000000000000000000001234'' = Inr None \<and>
   isl (fst (getTokenByAddress world_down service0
     ''0x0000000000000000000000000000000000000000000000000000000000001234'')) \<and>
   provider service0 = None \<and>
   getDecimalsAsync world_down service0
     ''0x0000000000000000000000000000000000000000000000000000000000001234'' =
     (Inl (Error NoProviderConfigured
        (''Token 0x0000000000000000000000000000000000000000000000000000000000001234'' @
         '' not found and no RPC provider configured for on-chain fallback'')),
      service0,
      [FetchTokenByAddress ''0x0000000000000000000000000000000000000000000000000000000000001234''])"
proof -
  have p: "provider service0 = None" by (simp add: service0_def)
  from no_provider_configured [OF getDecimals_1234_miss getTokenByAddress_1234_down p]
    getDecimals_1234_miss p
  show ?thesis by (simp add: getTokenByAddress_1234_down)
qed

subsection \<open>The contract of resolveSymbol\<close>

lemma upperChar_table:
  "list_all (\<lambda>c. upperChar (upperChar c) = upperChar c) ''abcdefghijklmnopqrstuvwxyz''"
  by (simp add: upperChar_def)

lemma upperChar_other: "c \<notin> set ''abcdefghijklmnopqrstuvwxyz'' \<Longrightarrow> upperChar c = c"
proof -
  assume "c \<notin> set ''abcdefghijklmnopqrstuvwxyz''"
  then have "map_of (zip ''abcdefghijklmnopqrstuvwxyz'' ''ABCDEFGHIJKLMNOPQRSTUVWXYZ'') c = None"
    by (subst map_of_zip_is_None) simp_all
  then show ?thesis by (simp add: upperChar_def)
qed

lemma upperChar_idem: "upperChar (upperChar c) = upperChar c"
proof (cases "c \<in> set ''abcdefghijklmnopqrstuvwxyz''")
  case True
  with upperChar_table show ?thesis unfolding list_all_iff by blast
next
  case False
  from upperChar_other [OF this] show ?thesis by simp
qed

lemma toUpperCase_idem: "toUpperCase (toUpperCase x) = toUpperCase x"
  by (simp add: toUpperCase_def upperChar_idem)

lemma truthy_index:
  assumes "inv st"
  shows "truthy (map_of (symbolIndex st) u) \<longleftrightarrow> map_of (symbolIndex st) u \<noteq> None"
proof (cases "map_of (symbolIndex st) u")
  case None
  then show ?thesis by (simp add: truthy_def)
next
  case (Some a)
  then have "(u, a) \<in> set (symbolIndex st)" by (rule map_of_SomeD)
  from invD(5) [OF assms this] have "a \<noteq> []" by (rule normalized_nonempty)
  with Some show ?thesis by (simp add: truthy_def)
qed

text \<open>
  C4, as the code has it. In a reachable state: an input whose uppercased form is a key of
  the symbol index resolves to the indexed address, so inputs that differ only in case
  resolve alike; otherwise an input that starts with \<open>0x\<close> gets the answer of the
  normalizer, which is the normalized address when the input is a valid address, cached
  or not, and the \<open>InvalidAddress\<close> error of the normalizer when it is not; otherwise
  the result is the \<open>UnknownToken\<close> error with the input in its message.
\<close>

theorem resolveSymbol_contract:
  assumes "reachable st"
  shows "(\<forall>x a. map_of (symbolIndex st) (toUpperCase x) = Some a \<longrightarrow>
            resolveSymbol st x = Inr a \<and> resolveSymbol st (toUpperCase x) = Inr a \<and>
            (\<forall>y. toUpperCase y = toUpperCase x \<longrightarrow> resolveSymbol st y = Inr a)) \<and>
         (\<forall>x. map_of (symbolIndex st) (toUpperCase x) = None \<longrightarrow> startsWith x ''0x'' \<longrightarrow>
            resolveSymbol st x = normalizeAddress x \<and>
            (\<forall>k. normalizeAddress x = Inr k \<longrightarrow>
               resolveSymbol st x = Inr k \<and> normalizeAddress k = Inr k) \<and>
            (\<forall>e. normalizeAddress x = Inl e \<longrightarrow> resolveSymbol st x = Inl e)) \<and>
         (\<forall>x. map_of (symbolIndex st) (toUpperCase x) = None \<longrightarrow> \<not> startsWith x ''0x'' \<longrightarrow>
            resolveSymbol st x = Inl (Error UnknownToken (''Unknown token: '' @ x)))"
proof -
  note i = reachable_inv [OF assms]
  have 1: "resolveSymbol st x = Inr a \<and> resolveSymbol st (toUpperCase x) = Inr a \<and>
      (\<forall>y. toUpperCase y = toUpperCase x \<longrightarrow> resolveSymbol st y = Inr a)"
    if "map_of (symbolIndex st) (toUpperCase x) = Some a" for x a
    using that resolveSymbol_indexed [OF i, of _ a] by (simp add: toUpperCase_idem)
  have 2: "resolveSymbol st x = normalizeAddress x"
    if "map_of (symbolIndex st) (toUpperCase x) = None" "startsWith x ''0x''" for x
    using that by (simp add: resolveSymbol_def truthy_def)
  have 3: "resolveSymbol st x = Inl (Error UnknownToken (''Unknown token: '' @ x))"
    if "map_of (symbolIndex st) (toUpperCase x) = None" "\<not> startsWith x ''0x''" for x
    using that by (simp add: resolveSymbol_def truthy_def)
  from 1 2 3 normalizeAddress_fixed show ?thesis by simp
qed


lemma norm_0xZZ: "normalizeAddress ''0xZZ'' = Inl (Error InvalidAddress ''Invalid Address Format'')"
  by (simp add: normalizeAddress_def validateAndParseAddress_def parse_hex_def
        removeHexPrefix_def toLowerCase_def lowerChar_def hexValue_def)

lemma norm_12aB:
  "normalizeAddress ''0x12aB'' =
     Inr ''0x00000000000000000000000000000000000000000000000000000000000012ab''"
proof -
  have "normalizeAddress (''0x'' @ ''12aB'') =
          Inr (''0x'' @ replicate (64 - length ''12ab'') CHR ''0'' @ ''12ab'')"
    by (rule normalizeAddress_0x_eval [where n = "0x12ab"])
       (simp_all add: hexValue_def to_hex.simps hexChar_def ADDR_BOUND_def)
  then show ?thesis by (simp add: replicate_numeral)
qed

lemma index0_lookups:
  "map_of (symbolIndex service0) (toUpperCase ''eth'') = Some (address ETH)"
  "toUpperCase ''Eth'' = toUpperCase ''eth''"
  "toUpperCase ''eth'' = ''ETH''"
  "map_of (symbolIndex service0) (toUpperCase ''0xZZ'') = None"
  "map_of (symbolIndex service0) (toUpperCase ''0x12aB'') = None"
  "map_of (symbolIndex service0) (toUpperCase ''UNKNOWN'') = None"
  by (simp_all add: service0_def static_index_def STATIC_TOKENS_def toUpperCase_def
        upperChar_def ETH_eq)

theorem resolveSymbol_contract_witness:
  "reachable service0 \<and>
   map_of (symbolIndex service0) (toUpperCase ''eth'') = Some (address ETH) \<and>
   resolveSymbol service0 ''eth'' = Inr (address ETH) \<and>
   resolveSymbol service0 ''ETH'' = Inr (address ETH) \<and>
   resolveSymbol service0 ''Eth'' = Inr (address ETH) \<and>
   map_of (symbolIndex service0) (toUpperCase ''0x12aB'') = None \<and> startsWith ''0x12aB'' ''0x'' \<and>
   resolveSymbol service0 ''0x12aB'' =
     Inr ''0x00000000000000000000000000000000000000000000000000000000000012ab'' \<and>
   map_of (symbolIndex service0) (toUpperCase ''0xZZ'') = None \<and> startsWith ''0xZZ'' ''0x'' \<and>
   resolveSymbol service0 ''0xZZ'' = Inl (Error InvalidAddress ''Invalid Address Format'') \<and>
   map_of (symbolIndex service0) (toUpperCase ''UNKNOWN'') = None \<and>
   \<not> startsWith ''UNKNOWN'' ''0x'' \<and>
   resolveSymbol service0 ''UNKNOWN'' = Inl (Error UnknownToken ''Unknown token: UNKNOWN'')"
proof -
  note c = resolveSymbol_contract [OF reachable_service0]
  from c have c1: "\<forall>x a. map_of (symbolIndex service0) (toUpperCase x) = Some a \<longrightarrow>
      resolveSymbol service0 x = Inr a \<and> resolveSymbol service0 (toUpperCase x) = Inr a \<and>
      (\<forall>y. toUpperCase y = toUpperCase x \<longrightarrow> resolveSymbol service0 y = Inr a)"
    by (rule conjunct1)
  with index0_lookups(1) have e:
    "resolveSymbol service0 ''eth'' = Inr (address ETH) \<and>
     resolveSymbol service0 (toUpperCase ''eth'') = Inr (address ETH) \<and>
     (\<forall>y. toUpperCase y = toUpperCase ''eth'' \<longrightarrow> resolveSymbol service0 y = Inr (address ETH))"
    by blast
  then have e1: "resolveSymbol service0 ''eth'' = Inr (address ETH)"
    and e2: "resolveSymbol service0 ''ETH'' = Inr (address ETH)"
    by (simp_all only: index0_lookups(3))
  from e index0_lookups(2) have e3: "resolveSymbol service0 ''Eth'' = Inr (address ETH)"
    by blast
  have s: "startsWith ''0x12aB'' ''0x''" "startsWith ''0xZZ'' ''0x''"
    "\<not> startsWith ''UNKNOWN'' ''0x''"
    by (simp_all add: startsWith_def)
  from c have c2: "\<forall>x. map_of (symbolIndex service0) (toUpperCase x) = None \<longrightarrow>
      startsWith x ''0x'' \<longrightarrow> resolveSymbol service0 x = normalizeAddress x \<and>
        (\<forall>k. normalizeAddress x = Inr k \<longrightarrow>
               resolveSymbol service0 x = Inr k \<and> normalizeAddress k = Inr k) \<and>
        (\<forall>e. normalizeAddress x = Inl e \<longrightarrow> resolveSymbol service0 x = Inl e)"
    by blast
  from c2 index0_lookups(5) s(1) norm_12aB have a1: "resolveSymbol service0 ''0x12aB'' =
     Inr ''0x00000000000000000000000000000000000000000000000000000000000012ab''"
    by blast
  from c2 index0_lookups(4) s(2) norm_0xZZ have a2:
    "resolveSymbol service0 ''0xZZ'' = Inl (Error InvalidAddress ''Invalid Address Format'')"
    by blast
  from c have "\<forall>x. map_of (symbolIndex service0) (toUpperCase x) = None \<longrightarrow>
      \<not> startsWith x ''0x'' \<longrightarrow>
      resolveSymbol service0 x = Inl (Error UnknownToken (''Unknown token: '' @ x))"
    by blast
  with index0_lookups(6) s(3) have
    "resolveSymbol service0 ''UNKNOWN'' = Inl (Error UnknownToken (''Unknown token: '' @ ''UNKNOWN''))"
    by blast
  then have u: "resolveSymbol service0 ''UNKNOWN'' =
      Inl (Error UnknownToken ''Unknown token: UNKNOWN'')"
    by simp
  from reachable_service0 index0_lookups e1 e2 e3 s a1 a2 u show ?thesis
    by (intro conjI)
qed

text \<open>The claim as it is written fails at \<open>0xZZ\<close>: the input is no symbol of the index,
  the normalizer rejects it, and the error is not \<open>UnknownToken\<close>.\<close>

theorem resolveSymbol_unknown_counterexample:
  "reachable service0 \<and>
   map_of (symbolIndex service0) (toUpperCase ''0xZZ'') = None \<and>
   normalizeAddress ''0xZZ'' = Inl (Error InvalidAddress ''Invalid Address Format'') \<and>
   resolveSymbol service0 ''0xZZ'' = Inl (Error InvalidAddress ''Invalid Address Format'') \<and>
   resolveSymbol service0 ''0xZZ'' \<noteq> Inl (Error UnknownToken (''Unknown token: '' @ ''0xZZ''))"
proof -
  have "resolveSymbol service0 ''0xZZ'' = Inl (Error InvalidAddress ''Invalid Address Format'')"
    using index0_lookups(4) norm_0xZZ
    by (simp add: resolveSymbol_def truthy_def startsWith_def)
  with reachable_service0 index0_lookups(4) norm_0xZZ show ?thesis by simp
qed

subsection \<open>Propagation of InvalidAddress\<close>





subsection \<open>Balance input\<close>

lemma map_resolve_Inr_iff:
  "map_resolve st ts = Inr as \<longleftrightarrow>
     length as = length ts \<and> (\<forall>i<length ts. resolveSymbol st (ts ! i) = Inr (as ! i))"
proof (induction ts arbitrary: as)
  case Nil
  show ?case by auto
next
  case (Cons t ts)
  show ?case
  proof (cases as)
    case Nil
    then show ?thesis by (auto split: sum.splits)
  next
    case (Cons a as')
    have "(\<forall>i<Suc (length ts). resolveSymbol st ((t # ts) ! i) = Inr ((a # as') ! i)) \<longleftrightarrow>
        resolveSymbol st t = Inr a \<and> (\<forall>i<length ts. resolveSymbol st (ts ! i) = Inr (as' ! i))"
      by (auto simp: less_Suc_eq_0_disj)
    with Cons.IH [of as'] Cons show ?thesis
      by (auto simp: resolveTokenAddress_def split: sum.splits)
  qed
qed

text \<open>
  C3, as the code has it. For a list that is not empty and within the batch limit,
  \<open>validateTokensInput\<close> succeeds exactly with the element-wise resolution of the list, one
  address per input in input order, provided the resolved addresses are pairwise
  different; when all identifiers resolve and two of them resolve to the same address, it
  fails with the error \<open>Duplicate tokens in request\<close>.
\<close>

theorem validateTokensInput_mapping:
  assumes "ts \<noteq> []" "length ts \<le> MAX_BATCH_TOKENS"
  shows "(validateTokensInput st (Some ts) = Inr as \<longleftrightarrow>
            length as = length ts \<and>
            (\<forall>i<length ts. resolveSymbol st (ts ! i) = Inr (as ! i)) \<and> distinct as) \<and>
         (length as = length ts \<and>
          (\<forall>i<length ts. resolveSymbol st (ts ! i) = Inr (as ! i)) \<and> \<not> distinct as \<longrightarrow>
            validateTokensInput st (Some ts) =
              Inl (Error ValidationError ''Duplicate tokens in request''))"
proof -
  have d: "length (remdups xs) = length xs \<longleftrightarrow> distinct xs" for xs :: "string list"
    by simp
  have v: "validateTokensInput st (Some ts) =
      (case map_resolve st ts of
         Inl e \<Rightarrow> Inl e
       | Inr tokenAddresses \<Rightarrow>
           if length (remdups tokenAddresses) \<noteq> length ts
           then Inl (Error ValidationError ''Duplicate tokens in request'')
           else Inr tokenAddresses)"
    using assms by (simp add: validateTokensInput_def)
  show ?thesis
  proof (cases "map_resolve st ts")
    case (Inl e)
    with map_resolve_Inr_iff [of st ts as] v show ?thesis by auto
  next
    case (Inr bs)
    then have b: "length bs = length ts" "\<forall>i<length ts. resolveSymbol st (ts ! i) = Inr (bs ! i)"
      using map_resolve_Inr_iff [of st ts bs] by simp_all
    have e: "as = bs" if "length as = length ts"
      "\<forall>i<length ts. resolveSymbol st (ts ! i) = Inr (as ! i)"
      using that map_resolve_Inr_iff [of st ts as] Inr by simp
    from v Inr b(1) have "validateTokensInput st (Some ts) =
        (if distinct bs then Inr bs else Inl (Error ValidationError ''Duplicate tokens in request''))"
      using d [of bs] by simp
    with b e show ?thesis by auto
  qed
qed


lemma resolve0:
  "resolveSymbol service0 ''ETH'' = Inr (address ETH)"
  "resolveSymbol service0 ''usdc'' =
     Inr ''0x053c91253bc9682c04929ca02ed00b3e423f6710d2ee7e0d5ebb06f3ecf368a8''"
  by (simp_all add: resolveSymbol_def service0_def static_index_def STATIC_TOKENS_def
        toUpperCase_def upperChar_def truthy_def ETH_eq)

theorem validateTokensInput_mapping_witness:
  "[''ETH'', ''usdc''] \<noteq> [] \<and> length [''ETH'', ''usdc''] \<le> MAX_BATCH_TOKENS \<and>
   resolveSymbol service0 ''ETH'' = Inr (address ETH) \<and>
   resolveSymbol service0 ''usdc'' =
     Inr ''0x053c91253bc9682c04929ca02ed00b3e423f6710d2ee7e0d5ebb06f3ecf368a8'' \<and>
   distinct [address ETH, ''0x053c91253bc9682c04929ca02ed00b3e423f6710d2ee7e0d5ebb06f3ecf368a8''] \<and>
   validateTokensInput service0 (Some [''ETH'', ''usdc'']) =
     Inr [address ETH, ''0x053c91253bc9682c04929ca02ed00b3e423f6710d2ee7e0d5ebb06f3ecf368a8'']"
proof -
  let ?ts = "[''ETH'', ''usdc'']"
  let ?as = "[address ETH, ''0x053c91253bc9682c04929ca02ed00b3e423f6710d2ee7e0d5ebb06f3ecf368a8'']"
  have n: "?ts \<noteq> []" and m: "length ?ts \<le> MAX_BATCH_TOKENS"
    by (simp_all add: MAX_BATCH_TOKENS_def)
  have d: "distinct ?as" by (simp add: ETH_eq)
  have l: "length ?as = length ?ts" by simp
  have r: "\<forall>i<length ?ts. resolveSymbol service0 (?ts ! i) = Inr (?as ! i)"
    using resolve0 by (auto simp: less_Suc_eq)
  from validateTokensInput_mapping [OF n m, of service0 ?as] l r d
  have "validateTokensInput service0 (Some ?ts) = Inr ?as" by blast
  with n m resolve0 d show ?thesis by (intro conjI)
qed

text \<open>The claim as it is written fails at \<open>["ETH", "ETH"]\<close>: the list is within the limit,
  both identifiers resolve, and the call fails.\<close>

theorem validateTokensInput_duplicates_counterexample:
  "length [''ETH'', ''ETH''] \<le> MAX_BATCH_TOKENS \<and>
   resolveSymbol service0 ''ETH'' = Inr (address ETH) \<and>
   validateTokensInput service0 (Some [''ETH'', ''ETH'']) =
     Inl (Error ValidationError ''Duplicate tokens in request'')"
  by (simp add: validateTokensInput_def MAX_BATCH_TOKENS_def resolveTokenAddress_def resolve0)

subsection \<open>Records cached by the on-chain fallback\<close>



lemma cacheOnChainDecimals_new:
  assumes "normalizeAddress a = Inr k" "map_of (cache st) k = None"
  shows "cacheOnChainDecimals st now a d =
     Inr (st\<lparr>cache := AList.update k
        \<lparr>address = k, symbol = slice_first 10 k @ ''...'' @ slice_last 6 k,
         name = ''Unknown Token'', decimals = d, logoUri = None, lastDailyVolumeUsd = 0,
         tags = [], extensions = [], isStatic = False, lastUpdated = now\<rparr> (cache st)\<rparr>)"
  using assms by (simp add: cacheOnChainDecimals_def Let_def)


subsection \<open>Examples with a provider\<close>

lemma service_rpc_fields:
  "cache service_rpc = static_cache" "symbolIndex service_rpc = static_index"
  "baseUrl service_rpc = ''https://starknet.api.avnu.fi''"
  "provider service_rpc = Some (RpcProvider ''http://localhost:5050'')"
  by (simp_all add: service_rpc_def setProvider_def service0_def)

lemma reachable_service_rpc: "reachable service_rpc"
  unfolding service_rpc_def using reachable_service0 by (rule r_setProvider)

lemma LORDS_address:
  "address MOCK_LORDS_TOKEN =
     ''0x0124aeb495b947201f5fac96fd1138e326ad86195b98df6dec9009158a533b49''"
  by (simp add: MOCK_LORDS_TOKEN_def)

lemma static_cache_misses:
  "map_of static_cache ''0x0000000000000000000000000000000000000000000000000000000000001234'' = None"
  "map_of static_cache ''0x0124aeb495b947201f5fac96fd1138e326ad86195b98df6dec9009158a533b49'' = None"
  by (simp_all add: static_cache_def STATIC_TOKENS_def)

lemma getDecimals_rpc_miss:
  "getDecimals service_rpc t
     ''0x0000000000000000000000000000000000000000000000000000000000001234'' = Inr None"
  "getDecimals service_rpc t (address MOCK_LORDS_TOKEN) = Inr None"
  by (simp_all add: getDecimals_def norm_1234 norm_LORDS LORDS_address service_rpc_fields
        static_cache_misses)

lemma getTokenByAddress_rpc_down:
  "getTokenByAddress world_down service_rpc
     ''0x0000000000000000000000000000000000000000000000000000000000001234'' =
   (Inl (Error RemoteFetchFailed
      (''Failed to fetch token by address '' @
       ''0x0000000000000000000000000000000000000000000000000000000000001234'' @ '': '' @
       ''avnu unavailable'')),
    service_rpc,
    [FetchTokenByAddress ''0x0000000000000000000000000000000000000000000000000000000000001234''])"
  by (simp only: getTokenByAddress_miss [OF getDecimals_rpc_miss(1)])
     (simp add: world_down_def)

lemma getTokenByAddress_rpc_badrecord:
  "getTokenByAddress world_badrecord service_rpc
     ''0x0000000000000000000000000000000000000000000000000000000000001234'' =
   (Inl (Error RemoteFetchFailed
      (''Failed to fetch token by address '' @
       ''0x0000000000000000000000000000000000000000000000000000000000001234'' @ '': '' @
       ''Invalid Address Format'')),
    service_rpc,
    [FetchTokenByAddress ''0x0000000000000000000000000000000000000000000000000000000000001234''])"
proof -
  have "addToCache service_rpc (MOCK_LORDS_TOKEN\<lparr>address := ''0xZZ''\<rparr>) False 1000 =
      Inl (Error InvalidAddress ''Invalid Address Format'')"
    by (rule addToCache_fails) (simp add: norm_0xZZ)
  then show ?thesis
    by (simp only: getTokenByAddress_miss [OF getDecimals_rpc_miss(1)])
       (simp add: world_badrecord_def)
qed

lemma cacheOnChainDecimals_rpc:
  "cacheOnChainDecimals service_rpc 1000
     ''0x0000000000000000000000000000000000000000000000000000000000001234'' 18 =
   Inr service_onchain"
proof -
  have "cacheOnChainDecimals service_rpc 1000
     ''0x0000000000000000000000000000000000000000000000000000000000001234'' 18 =
     Inr (service_rpc\<lparr>cache := AList.update
        ''0x0000000000000000000000000000000000000000000000000000000000001234''
        \<lparr>address = ''0x0000000000000000000000000000000000000000000000000000000000001234'',
         symbol = slice_first 10 ''0x0000000000000000000000000000000000000000000000000000000000001234'' @
           ''...'' @ slice_last 6 ''0x0000000000000000000000000000000000000000000000000000000000001234'',
         name = ''Unknown Token'', decimals = 18, logoUri = None, lastDailyVolumeUsd = 0,
         tags = [], extensions = [], isStatic = False, lastUpdated = 1000\<rparr>
        (cache service_rpc)\<rparr>)"
    by (rule cacheOnChainDecimals_new [OF norm_1234])
       (simp add: service_rpc_fields static_cache_misses)
  then show ?thesis
    by (simp add: service_onchain_def UNKNOWN_cached_def service_rpc_fields static_cache_def
          STATIC_TOKENS_def slice_first_def slice_last_def)
qed


lemma getDecimalsAsync_rpc_badrecord:
  "getDecimalsAsync world_badrecord service_rpc
     ''0x0000000000000000000000000000000000000000000000000000000000001234'' =
   (Inr 18, service_onchain,
    [FetchTokenByAddress ''0x0000000000000000000000000000000000000000000000000000000000001234'',
     ContractDecimals ''0x0000000000000000000000000000000000000000000000000000000000001234''])"
  by (simp only: getDecimalsAsync_miss [OF getDecimals_rpc_miss(1) getTokenByAddress_rpc_badrecord])
     (simp add: service_rpc_fields world_badrecord_def cacheOnChainDecimals_rpc)

lemma getTokenByAddress_rpc_lords:
  "\<exists>c st1. getTokenByAddress world_lords service_rpc (address MOCK_LORDS_TOKEN) =
      (Inr c, st1, [FetchTokenByAddress (address MOCK_LORDS_TOKEN)]) \<and> decimals c = 18"
proof -
  have n: "normalizeAddress (address MOCK_LORDS_TOKEN) = Inr (address MOCK_LORDS_TOKEN)"
    by (simp add: LORDS_address norm_LORDS)
  from addToCache_succeeds [OF n] obtain c st1 where
    a: "addToCache service_rpc MOCK_LORDS_TOKEN False 1000 = Inr (c, st1)" by blast
  then have "decimals c = decimals MOCK_LORDS_TOKEN"
  proof (cases rule: addToCache_cases)
    case (kept a')
    with n static_cache_misses(2) show ?thesis
      by (simp add: service_rpc_fields LORDS_address)
  next
    case (written a')
    then show ?thesis by simp
  qed
  then have "decimals c = 18" by (simp add: MOCK_LORDS_TOKEN_def)
  moreover have "getTokenByAddress world_lords service_rpc (address MOCK_LORDS_TOKEN) =
      (Inr c, st1, [FetchTokenByAddress (address MOCK_LORDS_TOKEN)])"
    using a
    by (simp only: getTokenByAddress_miss [OF getDecimals_rpc_miss(2)])
       (simp add: world_lords_def)
  ultimately show ?thesis by blast
qed

theorem decimals_fallback_order_witness:
  "getDecimals service_rpc (date_now world_lords) (address MOCK_LORDS_TOKEN) = Inr None \<and>
   provider service_rpc = Some (RpcProvider ''http://localhost:5050'') \<and>
   \<not> isl (fst (getTokenByAddress world_lords service_rpc (address MOCK_LORDS_TOKEN))) \<and>
   fst (getDecimalsAsync world_lords service_rpc (address MOCK_LORDS_TOKEN)) = Inr 18 \<and>
   snd (snd (getDecimalsAsync world_lords service_rpc (address MOCK_LORDS_TOKEN))) =
     [FetchTokenByAddress (address MOCK_LORDS_TOKEN)] \<and>
   getDecimals service_rpc (date_now world_down)
     ''0x0000000000000000000000000000000000000000000000000000000000001234'' = Inr None \<and>
   isl (fst (getTokenByAddress world_down service_rpc
     ''0x0000000000000000000000000000000000000000000000000000000000001234'')) \<and>
   snd (snd (getDecimalsAsync world_down service_rpc
     ''0x0000000000000000000000000000000000000000000000000000000000001234'')) =
     [FetchTokenByAddress ''0x0000000000000000000000000000000000000000000000000000000000001234'',
      ContractDecimals ''0x0000000000000000000000000000000000000000000000000000000000001234'']"
proof -
  let ?L = "address MOCK_LORDS_TOKEN"
  let ?A = "''0x0000000000000000000000000000000000000000000000000000000000001234''"
  from getTokenByAddress_rpc_lords obtain c st1 where
    g: "getTokenByAddress world_lords service_rpc ?L = (Inr c, st1, [FetchTokenByAddress ?L])"
    and c: "decimals c = 18" by blast
  obtain r st' tr where d: "getDecimalsAsync world_lords service_rpc ?L = (r, st', tr)"
    by (cases "getDecimalsAsync world_lords service_rpc ?L")
  note k = decimals_fallback_order [OF getDecimals_rpc_miss(2) g d]
  note k4 = k [THEN conjunct2, THEN conjunct2, THEN conjunct2, THEN conjunct1, rule_format]
  from k4 [OF refl] c have 1: "tr = [FetchTokenByAddress ?L]" "r = Inr 18" by simp_all
  obtain r2 st2 tr2 where d2: "getDecimalsAsync world_down service_rpc ?A = (r2, st2, tr2)"
    by (cases "getDecimalsAsync world_down service_rpc ?A")
  note k' = decimals_fallback_order [OF getDecimals_rpc_miss(1) getTokenByAddress_rpc_down d2]
  note k3 = k' [THEN conjunct2, THEN conjunct2, THEN conjunct1]
  have "provider service_rpc \<noteq> None" by (simp add: service_rpc_fields)
  with k3 have 2: "tr2 = [FetchTokenByAddress ?A, ContractDecimals ?A]"
    by (simp only: sum.disc simp_thms)
  have a1: "\<not> isl (fst (getTokenByAddress world_lords service_rpc ?L))"
    by (simp only: g fst_conv sum.disc simp_thms)
  have a2: "fst (getDecimalsAsync world_lords service_rpc ?L) = Inr 18"
    by (simp only: d 1 fst_conv)
  have a3: "snd (snd (getDecimalsAsync world_lords service_rpc ?L)) = [FetchTokenByAddress ?L]"
    by (simp only: d 1 snd_conv)
  have b1: "isl (fst (getTokenByAddress world_down service_rpc ?A))"
    by (simp only: getTokenByAddress_rpc_down fst_conv sum.disc)
  have b2: "snd (snd (getDecimalsAsync world_down service_rpc ?A)) =
      [FetchTokenByAddress ?A, ContractDecimals ?A]"
    by (simp only: d2 2 snd_conv)
  from getDecimals_rpc_miss(2) service_rpc_fields(4) a1 a2 a3 getDecimals_rpc_miss(1) b1 b2
  show ?thesis by (intro conjI)
qed

text \<open>The claim as it is written fails when the metadata source answers with a record
  whose address is not hexadecimal: the fetch has answered, and the on-chain call is made
  all the same.\<close>

theorem decimals_fallback_badrecord_counterexample:
  "reachable service_rpc \<and>
   getDecimals service_rpc (date_now world_badrecord)
     ''0x0000000000000000000000000000000000000000000000000000000000001234'' = Inr None \<and>
   fetchTokenByAddress world_badrecord
     ''0x0000000000000000000000000000000000000000000000000000000000001234''
     (baseUrl service_rpc) = Inr (MOCK_LORDS_TOKEN\<lparr>address := ''0xZZ''\<rparr>) \<and>
   getDecimalsAsync world_badrecord service_rpc
     ''0x0000000000000000000000000000000000000000000000000000000000001234'' =
   (Inr 18, service_onchain,
    [FetchTokenByAddress ''0x0000000000000000000000000000000000000000000000000000000000001234'',
     ContractDecimals ''0x0000000000000000000000000000000000000000000000000000000000001234''])"
proof -
  have f: "fetchTokenByAddress world_badrecord
     ''0x0000000000000000000000000000000000000000000000000000000000001234''
     (baseUrl service_rpc) = Inr (MOCK_LORDS_TOKEN\<lparr>address := ''0xZZ''\<rparr>)"
    by (simp add: world_badrecord_def)
  from reachable_service_rpc getDecimals_rpc_miss(1) f getDecimalsAsync_rpc_badrecord
  show ?thesis by (intro conjI)
qed






end
